theory Spec2Isabelle
  imports Complex_Main
begin

section \<open>Strings, dates and timestamps\<close>

text \<open>
  Strings are ASCII strings (\<^typ>\<open>string\<close>); \<open>str.strip()\<close> and \<open>str.lower()\<close> are modelled
  on ASCII, and code points above 127 are outside the model. A calendar date is its ordinal day number and a timestamp is a number of
  clock ticks, so that \<open>>\<close> on dates is \<open>>\<close> on integers.
\<close>

type_synonym date = int
type_synonym datetime = int

definition isspace :: "char \<Rightarrow> bool" where
  "isspace c = (let n = (of_char c :: nat) in (9 \<le> n \<and> n \<le> 13) \<or> (28 \<le> n \<and> n \<le> 32))"

definition strip :: "string \<Rightarrow> string" where
  "strip s = rev (dropWhile isspace (rev (dropWhile isspace s)))"

definition isupper :: "char \<Rightarrow> bool" where
  "isupper c = (65 \<le> (of_char c :: nat) \<and> (of_char c :: nat) \<le> 90)"

definition lower_char :: "char \<Rightarrow> char" where
  "lower_char c =
     (if isupper c
      then (case c of Char b0 b1 b2 b3 b4 b5 b6 b7 \<Rightarrow> Char b0 b1 b2 b3 b4 True b6 b7)
      else c)"

definition lower :: "string \<Rightarrow> string" where
  "lower s = map lower_char s"

definition islower :: "char \<Rightarrow> bool" where
  "islower c = (97 \<le> (of_char c :: nat) \<and> (of_char c :: nat) \<le> 122)"

definition upper_char :: "char \<Rightarrow> char" where
  "upper_char c =
     (if islower c
      then (case c of Char b0 b1 b2 b3 b4 b5 b6 b7 \<Rightarrow> Char b0 b1 b2 b3 b4 False b6 b7)
      else c)"

text \<open>
  \<open>str.title()\<close>: a letter is upper-cased after a character that is not a letter and
  lower-cased after a letter.
\<close>

fun title_from :: "bool \<Rightarrow> string \<Rightarrow> string" where
  "title_from prev [] = []"
| "title_from prev (c # cs) =
     (if isupper c \<or> islower c
      then (if prev then lower_char c else upper_char c) # title_from True cs
      else c # title_from False cs)"

definition title :: "string \<Rightarrow> string" where
  "title s = title_from False s"

section \<open>The e-mail pattern\<close>

text \<open>
  \<^verbatim>\<open>^[a-zA-Z0-9._%+-]+@[a-zA-Z0-9.-]+\.[a-zA-Z]{2,}$\<close> under \<open>re.match\<close>.
  Neither character class contains \<open>@\<close>, so the local part is the longest prefix of
  local characters and has to be followed by \<open>@\<close>; the last group contains no dot, so
  the literal dot is the last dot of the rest. \<open>$\<close> also matches before one final newline.
\<close>

definition isalpha :: "char \<Rightarrow> bool" where
  "isalpha c = (let n = (of_char c :: nat) in (65 \<le> n \<and> n \<le> 90) \<or> (97 \<le> n \<and> n \<le> 122))"

definition isdigit :: "char \<Rightarrow> bool" where
  "isdigit c = (let n = (of_char c :: nat) in 48 \<le> n \<and> n \<le> 57)"

definition local_char :: "char \<Rightarrow> bool" where
  "local_char c = (isalpha c \<or> isdigit c \<or> c \<in> set ''._%+-'')"

definition domain_char :: "char \<Rightarrow> bool" where
  "domain_char c = (isalpha c \<or> isdigit c \<or> c \<in> set ''.-'')"

definition match_domain :: "string \<Rightarrow> bool" where
  "match_domain s =
     (let tld = rev (takeWhile (\<lambda>c. c \<noteq> CHR ''.'') (rev s));
          front = rev (dropWhile (\<lambda>c. c \<noteq> CHR ''.'') (rev s))
      in front \<noteq> [] \<and> butlast front \<noteq> [] \<and> list_all domain_char (butlast front)
         \<and> 2 \<le> length tld \<and> list_all isalpha tld)"

definition match_to_end :: "string \<Rightarrow> bool" where
  "match_to_end s =
     (let loc = takeWhile local_char s; rest = dropWhile local_char s
      in loc \<noteq> [] \<and> (case rest of [] \<Rightarrow> False | c # d \<Rightarrow> c = CHR ''@'' \<and> match_domain d))"

definition email_pattern :: "string \<Rightarrow> bool" where
  "email_pattern s =
     (match_to_end s \<or> (s \<noteq> [] \<and> last s = CHR 0x0A \<and> match_to_end (butlast s)))"

section \<open>Exceptions\<close>

text \<open>
  The exception classes of \<open>app/utils/exceptions.py\<close> with the arguments the services pass,
  the validation error of the request schemas (the names of the rejected fields), the
  \<open>ValidationError\<close> that \<open>model_validate\<close> raises inside a route (no handler but the
  general one, which answers 500), and \<open>StaleDataError\<close> for the one storage error the
  services do not catch.
\<close>

datatype error =
    EmployeeNotFoundException int
  | DuplicateEmployeeException string "string option" "string option"
  | DuplicateAttendanceException int date
  | InvalidDateException date string
  | RequestValidationError "string list"
  | ValidationError "string list"
  | StaleDataError

datatype integrity_error = UniqueViolation | ForeignKeyViolation | CheckViolation

section \<open>Request schemas\<close>

record EmployeeCreate =
  employee_id :: string
  full_name :: string
  email :: string
  department :: string

record EmployeeUpdate =
  upd_full_name :: "string option"
  upd_email :: "string option"
  upd_department :: "string option"

datatype AttendanceStatus = PRESENT | ABSENT

fun status_value :: "AttendanceStatus \<Rightarrow> string" where
  "status_value PRESENT = ''Present''"
| "status_value ABSENT = ''Absent''"

record AttendanceCreate =
  ac_employee_id :: int
  attendance_date :: date
  status :: AttendanceStatus

text \<open>
  The body of a request to mark attendance and the validators of \<open>AttendanceBase\<close>:
  \<open>employee_id\<close> greater than 0, the date not after today, the status normalized by
  \<open>strip().title()\<close> before it is read as a member of the enumeration.
\<close>

record AttendanceRequest =
  req_employee_id :: int
  req_date :: date
  req_status :: string

definition validate_date_not_future :: "date \<Rightarrow> date \<Rightarrow> date option" where
  "validate_date_not_future today v = (if v > today then None else Some v)"

definition validate_status :: "string \<Rightarrow> AttendanceStatus option" where
  "validate_status v =
     (let value_str = title (strip v)
      in if value_str = ''Present'' then Some PRESENT
         else if value_str = ''Absent'' then Some ABSENT
         else None)"

text \<open>\<open>Field(min_length=lo, max_length=hi)\<close>, checked on the value as received.\<close>

definition field_length :: "nat \<Rightarrow> nat \<Rightarrow> string \<Rightarrow> bool" where
  "field_length lo hi v = (lo \<le> length v \<and> length v \<le> hi)"

text \<open>The field validators of \<open>EmployeeBase\<close>; \<open>None\<close> is the \<open>ValueError\<close>.\<close>

definition validate_employee_id :: "string \<Rightarrow> string option" where
  "validate_employee_id v = (let v' = strip v in if v' = [] then None else Some v')"

definition validate_full_name :: "string \<Rightarrow> string option" where
  "validate_full_name v =
     (let v' = strip v in if v' = [] then None else if length v' < 2 then None else Some v')"

definition validate_email :: "string \<Rightarrow> string option" where
  "validate_email v =
     (let v' = lower (strip v)
      in if v' = [] then None else if \<not> email_pattern v' then None else Some v')"

definition validate_department :: "string \<Rightarrow> string option" where
  "validate_department v = (let v' = strip v in if v' = [] then None else Some v')"

text \<open>A field of \<open>EmployeeCreate\<close>: the length constraint, then the validator.\<close>

definition create_employee_id :: "string \<Rightarrow> string option" where
  "create_employee_id v = (if field_length 1 50 v then validate_employee_id v else None)"

definition create_full_name :: "string \<Rightarrow> string option" where
  "create_full_name v = (if field_length 2 100 v then validate_full_name v else None)"

definition create_email :: "string \<Rightarrow> string option" where
  "create_email v = (if field_length 0 255 v then validate_email v else None)"

definition create_department :: "string \<Rightarrow> string option" where
  "create_department v = (if field_length 1 100 v then validate_department v else None)"

definition failed :: "string \<Rightarrow> 'a option \<Rightarrow> string list" where
  "failed name r = (case r of None \<Rightarrow> [name] | Some _ \<Rightarrow> [])"

definition EmployeeCreate_validate :: "EmployeeCreate \<Rightarrow> error + EmployeeCreate" where
  "EmployeeCreate_validate raw =
     (case (create_employee_id (employee_id raw), create_full_name (full_name raw),
            create_email (email raw), create_department (department raw)) of
        (Some i, Some n, Some m, Some d) \<Rightarrow>
          Inr \<lparr>employee_id = i, full_name = n, email = m, department = d\<rparr>
      | (ri, rn, rm, rd) \<Rightarrow>
          Inl (RequestValidationError
                (failed ''employee_id'' ri @ failed ''full_name'' rn
                 @ failed ''email'' rm @ failed ''department'' rd)))"

definition AttendanceCreate_validate :: "date \<Rightarrow> AttendanceRequest \<Rightarrow> error + AttendanceCreate" where
  "AttendanceCreate_validate today raw =
     (case (if req_employee_id raw > 0 then Some (req_employee_id raw) else None,
            validate_date_not_future today (req_date raw),
            validate_status (req_status raw)) of
        (Some i, Some dt, Some st) \<Rightarrow>
          Inr \<lparr>ac_employee_id = i, attendance_date = dt, status = st\<rparr>
      | (ri, rdt, rst) \<Rightarrow>
          Inl (RequestValidationError
                (failed ''employee_id'' ri @ failed ''date'' rdt @ failed ''status'' rst)))"

text \<open>
  The fields of \<open>EmployeeUpdate\<close>. Each is optional; the outer \<open>None\<close> is the rejection,
  \<open>Some None\<close> the field left out. \<open>full_name\<close> and \<open>department\<close> have a length
  constraint and no validator; \<open>email\<close> has the validator of the class, which turns a
  blank value into \<open>None\<close>.
\<close>

definition update_full_name :: "string option \<Rightarrow> string option option" where
  "update_full_name v =
     (case v of None \<Rightarrow> Some None
      | Some s \<Rightarrow> if field_length 2 100 s then Some (Some s) else None)"

definition update_department :: "string option \<Rightarrow> string option option" where
  "update_department v =
     (case v of None \<Rightarrow> Some None
      | Some s \<Rightarrow> if field_length 1 100 s then Some (Some s) else None)"

definition update_validate_email :: "string option \<Rightarrow> string option option" where
  "update_validate_email v =
     (case v of None \<Rightarrow> Some None
      | Some s \<Rightarrow>
          (let s' = lower (strip s)
           in if s' = [] then Some None
              else if \<not> email_pattern s' then None else Some (Some s')))"

definition update_email :: "string option \<Rightarrow> string option option" where
  "update_email v =
     (case v of None \<Rightarrow> Some None
      | Some s \<Rightarrow> if field_length 0 255 s then update_validate_email (Some s) else None)"

definition EmployeeUpdate_validate :: "EmployeeUpdate \<Rightarrow> error + EmployeeUpdate" where
  "EmployeeUpdate_validate raw =
     (case (update_full_name (upd_full_name raw), update_email (upd_email raw),
            update_department (upd_department raw)) of
        (Some n, Some m, Some d) \<Rightarrow>
          Inr \<lparr>upd_full_name = n, upd_email = m, upd_department = d\<rparr>
      | (rn, rm, rd) \<Rightarrow>
          Inl (RequestValidationError
                (failed ''full_name'' rn @ failed ''email'' rm @ failed ''department'' rd)))"

section \<open>The tables\<close>

text \<open>
  The two tables of \<open>app/models\<close>, each a list of rows in insertion order, and the two
  sequences behind the autoincrement keys (the last value handed out). A sequence is
  not transactional: a rejected insert has consumed its value.
\<close>

record Employee =
  emp_id :: int
  emp_employee_id :: string
  emp_full_name :: string
  emp_email :: string
  emp_department :: string
  emp_created_at :: datetime
  emp_updated_at :: datetime

record Attendance =
  att_id :: int
  att_employee_id :: int
  att_date :: date
  att_status :: string
  att_created_at :: datetime

record db =
  employees :: "Employee list"
  attendance :: "Attendance list"
  employees_id_seq :: int
  attendance_id_seq :: int

definition init_db :: db where
  "init_db = \<lparr>employees = [], attendance = [], employees_id_seq = 0, attendance_id_seq = 0\<rparr>"

subsection \<open>What the storage does with a write\<close>

text \<open>
  \<open>INSERT INTO employees\<close>: the unique indexes on \<open>employee_id\<close> and \<open>email\<close> compare
  the stored values exactly. The defaults \<open>created_at\<close> and \<open>updated_at\<close> are the clock.
\<close>

definition insert_employee ::
  "datetime \<Rightarrow> db \<Rightarrow> EmployeeCreate \<Rightarrow> (integrity_error + Employee) \<times> db" where
  "insert_employee now d v =
     (let i = employees_id_seq d + 1; d1 = d\<lparr>employees_id_seq := i\<rparr>
      in if list_ex (\<lambda>e. emp_employee_id e = employee_id v \<or> emp_email e = email v) (employees d)
         then (Inl UniqueViolation, d1)
         else (let row = \<lparr>emp_id = i, emp_employee_id = employee_id v,
                           emp_full_name = full_name v, emp_email = email v,
                           emp_department = department v,
                           emp_created_at = now, emp_updated_at = now\<rparr>
               in (Inr row, d1\<lparr>employees := employees d @ [row]\<rparr>)))"

text \<open>
  \<open>UPDATE employees SET ... WHERE id = i\<close> with the columns that changed and the
  \<open>onupdate\<close> default of \<open>updated_at\<close>. \<open>None\<close> is the statement that matches no row.
\<close>

definition update_row :: "datetime \<Rightarrow> EmployeeUpdate \<Rightarrow> Employee \<Rightarrow> Employee" where
  "update_row now ch e =
     e\<lparr>emp_full_name := (case upd_full_name ch of Some v \<Rightarrow> v | None \<Rightarrow> emp_full_name e),
       emp_email := (case upd_email ch of Some v \<Rightarrow> v | None \<Rightarrow> emp_email e),
       emp_department := (case upd_department ch of Some v \<Rightarrow> v | None \<Rightarrow> emp_department e),
       emp_updated_at := now\<rparr>"

definition update_employee_row ::
  "datetime \<Rightarrow> db \<Rightarrow> int \<Rightarrow> EmployeeUpdate \<Rightarrow> (integrity_error + db) option" where
  "update_employee_row now d i ch =
     (case find (\<lambda>e. emp_id e = i) (employees d) of
        None \<Rightarrow> None
      | Some cur \<Rightarrow>
          if list_ex (\<lambda>e. emp_id e \<noteq> i \<and> emp_email e = emp_email (update_row now ch cur)) (employees d)
          then Some (Inl UniqueViolation)
          else Some (Inr (d\<lparr>employees :=
                 map (\<lambda>e. if emp_id e = i then update_row now ch e else e) (employees d)\<rparr>)))"

text \<open>
  \<open>DELETE FROM employees WHERE id = i\<close>; the attendance rows of the employee go with it
  (\<open>cascade="all, delete-orphan"\<close> on the relationship, \<open>ondelete="CASCADE"\<close> on the key).
\<close>

definition delete_employee_row :: "db \<Rightarrow> int \<Rightarrow> db" where
  "delete_employee_row d i =
     d\<lparr>employees := filter (\<lambda>e. emp_id e \<noteq> i) (employees d),
       attendance := filter (\<lambda>a. att_employee_id a \<noteq> i) (attendance d)\<rparr>"

text \<open>
  \<open>INSERT INTO attendance\<close>: the check constraint on \<open>status\<close>, the unique constraint
  \<open>uq_employee_date\<close>, the foreign key.
\<close>

definition insert_attendance ::
  "datetime \<Rightarrow> db \<Rightarrow> int \<Rightarrow> date \<Rightarrow> string \<Rightarrow> (integrity_error + Attendance) \<times> db" where
  "insert_attendance now d eid dt st =
     (let i = attendance_id_seq d + 1; d1 = d\<lparr>attendance_id_seq := i\<rparr>
      in if st \<noteq> ''Present'' \<and> st \<noteq> ''Absent'' then (Inl CheckViolation, d1)
         else if list_ex (\<lambda>a. att_employee_id a = eid \<and> att_date a = dt) (attendance d)
         then (Inl UniqueViolation, d1)
         else if \<not> list_ex (\<lambda>e. emp_id e = eid) (employees d)
         then (Inl ForeignKeyViolation, d1)
         else (let row = \<lparr>att_id = i, att_employee_id = eid, att_date = dt,
                           att_status = st, att_created_at = now\<rparr>
               in (Inr row, d1\<lparr>attendance := attendance d @ [row]\<rparr>)))"

section \<open>EmployeeService\<close>

definition get_employee_by_id :: "db \<Rightarrow> int \<Rightarrow> error + Employee" where
  "get_employee_by_id d i =
     (case find (\<lambda>e. emp_id e = i) (employees d) of
        None \<Rightarrow> Inl (EmployeeNotFoundException i)
      | Some e \<Rightarrow> Inr e)"

definition get_employee_by_employee_id :: "db \<Rightarrow> string \<Rightarrow> Employee option" where
  "get_employee_by_employee_id d code = find (\<lambda>e. emp_employee_id e = code) (employees d)"

definition get_employee_by_email :: "db \<Rightarrow> string \<Rightarrow> Employee option" where
  "get_employee_by_email d m = find (\<lambda>e. emp_email e = lower m) (employees d)"

definition get_employee_count :: "db \<Rightarrow> int" where
  "get_employee_count d = int (length (employees d))"

text \<open>\<open>create_employee\<close>, lines 43 to 55: the two reads before the write.\<close>

definition create_precheck :: "db \<Rightarrow> EmployeeCreate \<Rightarrow> error option" where
  "create_precheck d data =
     (if get_employee_by_employee_id d (employee_id data) \<noteq> None
      then Some (DuplicateEmployeeException ''employee_id'' (Some (employee_id data)) None)
      else if get_employee_by_email d (email data) \<noteq> None
      then Some (DuplicateEmployeeException ''email'' (Some (email data)) None)
      else None)"

text \<open>Lines 57 to 74: the row, the commit, and the handler of \<open>IntegrityError\<close>.\<close>

definition create_commit :: "datetime \<Rightarrow> db \<Rightarrow> EmployeeCreate \<Rightarrow> (error + Employee) \<times> db" where
  "create_commit now d data =
     (case insert_employee now d (data\<lparr>email := lower (email data)\<rparr>) of
        (Inr row, d') \<Rightarrow> (Inr row, d')
      | (Inl _, d') \<Rightarrow>
          (Inl (DuplicateEmployeeException ''employee_id'' None
                  (Some ''Employee with this ID or email already exists'')), d'))"

definition create_employee :: "datetime \<Rightarrow> db \<Rightarrow> EmployeeCreate \<Rightarrow> (error + Employee) \<times> db" where
  "create_employee now d data =
     (case create_precheck d data of
        Some err \<Rightarrow> (Inl err, d)
      | None \<Rightarrow> create_commit now d data)"

text \<open>
  \<open>update_employee\<close>. The loop of \<open>setattr\<close> skips \<open>None\<close>; the session writes a column
  only if its new value differs from the loaded one, and sends no \<open>UPDATE\<close> at all (so
  \<open>onupdate\<close> does not fire) when no column differs.
\<close>

definition update_precheck :: "db \<Rightarrow> int \<Rightarrow> EmployeeUpdate \<Rightarrow> error option" where
  "update_precheck d i data =
     (case upd_email data of
        None \<Rightarrow> None
      | Some m \<Rightarrow>
          if m = [] then None
          else (case get_employee_by_email d m of
                  None \<Rightarrow> None
                | Some existing \<Rightarrow>
                    if emp_id existing \<noteq> i
                    then Some (DuplicateEmployeeException ''email'' (Some m) None)
                    else None))"

definition changed :: "string \<Rightarrow> string option \<Rightarrow> string option" where
  "changed old v = (case v of None \<Rightarrow> None | Some x \<Rightarrow> if x = old then None else Some x)"

definition net_changes :: "Employee \<Rightarrow> EmployeeUpdate \<Rightarrow> EmployeeUpdate" where
  "net_changes e data =
     \<lparr>upd_full_name = changed (emp_full_name e) (upd_full_name data),
      upd_email = changed (emp_email e) (upd_email data),
      upd_department = changed (emp_department e) (upd_department data)\<rparr>"

definition no_changes :: EmployeeUpdate where
  "no_changes = \<lparr>upd_full_name = None, upd_email = None, upd_department = None\<rparr>"

definition refresh :: "db \<Rightarrow> int \<Rightarrow> error + Employee" where
  "refresh d i =
     (case find (\<lambda>e. emp_id e = i) (employees d) of
        None \<Rightarrow> Inl StaleDataError
      | Some e \<Rightarrow> Inr e)"

definition update_commit ::
  "datetime \<Rightarrow> db \<Rightarrow> Employee \<Rightarrow> EmployeeUpdate \<Rightarrow> (error + Employee) \<times> db" where
  "update_commit now d employee data =
     (let ch = net_changes employee data
      in if ch = no_changes then (refresh d (emp_id employee), d)
         else (case update_employee_row now d (emp_id employee) ch of
                 None \<Rightarrow> (Inl StaleDataError, d)
               | Some (Inl _) \<Rightarrow>
                   (Inl (DuplicateEmployeeException ''employee_id'' None
                           (Some ''Email already exists'')), d)
               | Some (Inr d') \<Rightarrow> (refresh d' (emp_id employee), d')))"

definition update_employee ::
  "datetime \<Rightarrow> db \<Rightarrow> int \<Rightarrow> EmployeeUpdate \<Rightarrow> (error + Employee) \<times> db" where
  "update_employee now d i data =
     (case get_employee_by_id d i of
        Inl err \<Rightarrow> (Inl err, d)
      | Inr employee \<Rightarrow>
          (case update_precheck d i data of
             Some err \<Rightarrow> (Inl err, d)
           | None \<Rightarrow> update_commit now d employee data))"

definition delete_employee :: "db \<Rightarrow> int \<Rightarrow> (error + bool) \<times> db" where
  "delete_employee d i =
     (case get_employee_by_id d i of
        Inl err \<Rightarrow> (Inl err, d)
      | Inr employee \<Rightarrow> (Inr True, delete_employee_row d (emp_id employee)))"

text \<open>
  \<open>search_employees\<close> as the list route calls it: a department and no name. The query
  has no \<open>ORDER BY\<close>; \<open>scan\<close> is the order in which the storage hands out the rows of
  such a query.
\<close>

definition search_employees ::
  "(Employee list \<Rightarrow> Employee list) \<Rightarrow> db \<Rightarrow> string \<Rightarrow> Employee list" where
  "search_employees scan d dep =
     scan (if dep \<noteq> [] then filter (\<lambda>e. emp_department e = dep) (employees d) else employees d)"

text \<open>
  \<open>EmployeeResponse\<close> inherits the fields of \<open>EmployeeBase\<close> with their length
  constraints and validators, so \<open>EmployeeResponse.model_validate\<close> on a stored row
  runs them again and raises when one of them rejects the stored value.
\<close>

record EmployeeResponse =
  res_employee_id :: string
  res_full_name :: string
  res_email :: string
  res_department :: string
  res_id :: int
  res_created_at :: datetime
  res_updated_at :: datetime

definition EmployeeResponse_validate :: "Employee \<Rightarrow> error + EmployeeResponse" where
  "EmployeeResponse_validate emp =
     (case (create_employee_id (emp_employee_id emp), create_full_name (emp_full_name emp),
            create_email (emp_email emp), create_department (emp_department emp)) of
        (Some i, Some n, Some m, Some d) \<Rightarrow>
          Inr \<lparr>res_employee_id = i, res_full_name = n, res_email = m, res_department = d,
               res_id = emp_id emp, res_created_at = emp_created_at emp,
               res_updated_at = emp_updated_at emp\<rparr>
      | (ri, rn, rm, rd) \<Rightarrow>
          Inl (ValidationError
                (failed ''employee_id'' ri @ failed ''full_name'' rn
                 @ failed ''email'' rm @ failed ''department'' rd)))"

text \<open>The list comprehension of the route: the first row that fails ends it.\<close>

fun serialize :: "Employee list \<Rightarrow> error + EmployeeResponse list" where
  "serialize [] = Inr []"
| "serialize (emp # emps) =
     (case EmployeeResponse_validate emp of
        Inl err \<Rightarrow> Inl err
      | Inr r \<Rightarrow> (case serialize emps of Inl err \<Rightarrow> Inl err | Inr rs \<Rightarrow> Inr (r # rs)))"

text \<open>
  The list route \<open>get_all_employees\<close>, lines 85 to 107: the rows and the total of the
  branch taken, then the response built from them (\<open>data\<close> and \<open>total\<close>).
\<close>

definition get_all_employees ::
  "(Employee list \<Rightarrow> Employee list) \<Rightarrow> nat \<Rightarrow> nat \<Rightarrow> string option \<Rightarrow> db
     \<Rightarrow> error + EmployeeResponse list \<times> int" where
  "get_all_employees scan skip limit dep d =
     (let page = (take limit (drop skip (rev (sort_key emp_id (employees d)))),
                  int (length (employees d)));
          (emps, total) =
            (case dep of
               None \<Rightarrow> page
             | Some dp \<Rightarrow>
                 if dp \<noteq> []
                 then (let found = search_employees scan d dp in (found, int (length found)))
                 else page)
      in case serialize emps of
           Inl err \<Rightarrow> Inl err
         | Inr data \<Rightarrow> Inr (data, total))"

section \<open>AttendanceService\<close>

definition check_duplicate_attendance :: "db \<Rightarrow> int \<Rightarrow> date \<Rightarrow> Attendance option" where
  "check_duplicate_attendance d eid dt =
     find (\<lambda>a. att_employee_id a = eid \<and> att_date a = dt) (attendance d)"

text \<open>\<open>mark_attendance\<close>, lines 51 to 79: the three checks before the write.\<close>

definition mark_precheck :: "date \<Rightarrow> db \<Rightarrow> AttendanceCreate \<Rightarrow> error option" where
  "mark_precheck today d data =
     (if attendance_date data > today
      then Some (InvalidDateException (attendance_date data)
                   ''Cannot mark attendance for future dates'')
      else (case find (\<lambda>e. emp_id e = ac_employee_id data) (employees d) of
              None \<Rightarrow> Some (EmployeeNotFoundException (ac_employee_id data))
            | Some employee \<Rightarrow>
                (case check_duplicate_attendance d (ac_employee_id data) (attendance_date data) of
                   Some existing \<Rightarrow>
                     Some (DuplicateAttendanceException (ac_employee_id data) (attendance_date data))
                 | None \<Rightarrow> None)))"

text \<open>Lines 81 to 98: the row, the commit, and the handler of \<open>IntegrityError\<close>.\<close>

definition mark_commit :: "datetime \<Rightarrow> db \<Rightarrow> AttendanceCreate \<Rightarrow> (error + Attendance) \<times> db" where
  "mark_commit now d data =
     (case insert_attendance now d (ac_employee_id data) (attendance_date data)
             (status_value (status data)) of
        (Inr row, d') \<Rightarrow> (Inr row, d')
      | (Inl _, d') \<Rightarrow>
          (Inl (DuplicateAttendanceException (ac_employee_id data) (attendance_date data)), d'))"

definition mark_attendance ::
  "date \<Rightarrow> datetime \<Rightarrow> db \<Rightarrow> AttendanceCreate \<Rightarrow> (error + Attendance) \<times> db" where
  "mark_attendance today now d data =
     (case mark_precheck today d data of
        Some err \<Rightarrow> (Inl err, d)
      | None \<Rightarrow> mark_commit now d data)"

definition get_attendance_by_employee :: "db \<Rightarrow> int \<Rightarrow> error + Attendance list" where
  "get_attendance_by_employee d eid =
     (case find (\<lambda>e. emp_id e = eid) (employees d) of
        None \<Rightarrow> Inl (EmployeeNotFoundException eid)
      | Some employee \<Rightarrow>
          Inr (rev (sort_key att_date (filter (\<lambda>a. att_employee_id a = eid) (attendance d)))))"

text \<open>
  \<open>calculate_present_days\<close>. The percentage is floating point: the three operations
  on floats and the literal \<open>0.0\<close> are taken as they come, in a record of any type \<open>'f\<close>.
\<close>

record 'f float_ops =
  truediv :: "int \<Rightarrow> int \<Rightarrow> 'f"
  fmul :: "'f \<Rightarrow> int \<Rightarrow> 'f"
  round_ndigits :: "'f \<Rightarrow> int \<Rightarrow> 'f"
  float_zero :: 'f

record 'f AttendanceSummary =
  sum_employee_id :: int
  sum_employee_name :: string
  total_days :: int
  present_days :: int
  absent_days :: int
  attendance_percentage :: 'f

definition calculate_present_days ::
  "'f float_ops \<Rightarrow> db \<Rightarrow> int \<Rightarrow> error + 'f AttendanceSummary" where
  "calculate_present_days ops d eid =
     (case find (\<lambda>e. emp_id e = eid) (employees d) of
        None \<Rightarrow> Inl (EmployeeNotFoundException eid)
      | Some employee \<Rightarrow>
          (let records = filter (\<lambda>a. att_employee_id a = eid) (attendance d);
               total = int (length records);
               present = sum_list (map (\<lambda>r. 1) (filter (\<lambda>r. att_status r = ''Present'') records));
               absent = total - present;
               percentage =
                 (if total > 0
                  then round_ndigits ops (fmul ops (truediv ops present total) 100) 2
                  else float_zero ops)
           in Inr \<lparr>sum_employee_id = eid, sum_employee_name = emp_full_name employee,
                   total_days = total, present_days = present, absent_days = absent,
                   attendance_percentage = percentage\<rparr>))"

text \<open>Exact arithmetic on rationals as one instance: rounding to the nearest, ties to even.\<close>

definition round_half_even :: "rat \<Rightarrow> int" where
  "round_half_even x =
     (let f = \<lfloor>x\<rfloor>; r = x - of_int f
      in if r < 1 / 2 then f else if r > 1 / 2 then f + 1 else if even f then f else f + 1)"

definition exact_ops :: "rat float_ops" where
  "exact_ops =
     \<lparr>truediv = (\<lambda>a b. of_int a / of_int b),
      fmul = (\<lambda>x k. x * of_int k),
      round_ndigits = (\<lambda>x n. of_int (round_half_even (x * 10 ^ nat n)) / 10 ^ nat n),
      float_zero = 0\<rparr>"

section \<open>Writers that race\<close>

text \<open>
  The session runs at \<open>READ COMMITTED\<close> and takes no lock: between the reads of an
  operation and its commit another writer may commit. \<open>snap\<close> is the store the reads
  saw, \<open>d\<close> the store the commit meets. With \<open>snap = d\<close> these are the operations above.
\<close>

definition create_employee_racing ::
  "db \<Rightarrow> datetime \<Rightarrow> db \<Rightarrow> EmployeeCreate \<Rightarrow> (error + Employee) \<times> db" where
  "create_employee_racing snap now d data =
     (case create_precheck snap data of
        Some err \<Rightarrow> (Inl err, d)
      | None \<Rightarrow> create_commit now d data)"

definition update_employee_racing ::
  "db \<Rightarrow> datetime \<Rightarrow> db \<Rightarrow> int \<Rightarrow> EmployeeUpdate \<Rightarrow> (error + Employee) \<times> db" where
  "update_employee_racing snap now d i data =
     (case get_employee_by_id snap i of
        Inl err \<Rightarrow> (Inl err, d)
      | Inr employee \<Rightarrow>
          (case update_precheck snap i data of
             Some err \<Rightarrow> (Inl err, d)
           | None \<Rightarrow> update_commit now d employee data))"

definition mark_attendance_racing ::
  "db \<Rightarrow> date \<Rightarrow> datetime \<Rightarrow> db \<Rightarrow> AttendanceCreate \<Rightarrow> (error + Attendance) \<times> db" where
  "mark_attendance_racing snap today now d data =
     (case mark_precheck today snap data of
        Some err \<Rightarrow> (Inl err, d)
      | None \<Rightarrow> mark_commit now d data)"

section \<open>Reachable states\<close>

text \<open>
  The clock (\<open>datetime.utcnow()\<close> and \<open>date.today()\<close>) never runs backwards. A state is
  reachable from the empty store by the four writing operations, the employee
  operations on requests that passed their schema.
\<close>

record clock =
  clock_utcnow :: datetime
  clock_today :: date

inductive reachable :: "clock \<Rightarrow> db \<Rightarrow> bool" where
  start: "reachable c init_db"
| tick: "reachable c d \<Longrightarrow> clock_utcnow c \<le> clock_utcnow c' \<Longrightarrow> clock_today c \<le> clock_today c' \<Longrightarrow> reachable c' d"
| create: "reachable c d \<Longrightarrow> EmployeeCreate_validate raw = Inr data
             \<Longrightarrow> reachable c (snd (create_employee (clock_utcnow c) d data))"
| update: "reachable c d \<Longrightarrow> EmployeeUpdate_validate raw = Inr data
             \<Longrightarrow> reachable c (snd (update_employee (clock_utcnow c) d i data))"
| delete: "reachable c d \<Longrightarrow> reachable c (snd (delete_employee d i))"
| mark: "reachable c d \<Longrightarrow> reachable c (snd (mark_attendance (clock_today c) (clock_utcnow c) d data))"

section \<open>The rows the services write\<close>

definition new_employee :: "datetime \<Rightarrow> db \<Rightarrow> EmployeeCreate \<Rightarrow> Employee" where
  "new_employee now d data =
     \<lparr>emp_id = employees_id_seq d + 1, emp_employee_id = employee_id data,
      emp_full_name = full_name data, emp_email = lower (email data),
      emp_department = department data, emp_created_at = now, emp_updated_at = now\<rparr>"

definition new_attendance :: "datetime \<Rightarrow> db \<Rightarrow> AttendanceCreate \<Rightarrow> Attendance" where
  "new_attendance now d data =
     \<lparr>att_id = attendance_id_seq d + 1, att_employee_id = ac_employee_id data,
      att_date = attendance_date data, att_status = status_value (status data),
      att_created_at = now\<rparr>"

section \<open>Example states\<close>

text \<open>
  The example of the specification: employee \<open>EMP001\<close>, created at tick 100, and a
  ledger with nine days present and one day absent.
\<close>

definition rajesh :: EmployeeCreate where
  "rajesh = \<lparr>employee_id = ''EMP001'', full_name = ''Rajesh Kumar'',
             email = ''rajesh.kumar@company.com'', department = ''Engineering''\<rparr>"

definition example_employee :: Employee where
  "example_employee =
     \<lparr>emp_id = 1, emp_employee_id = ''EMP001'', emp_full_name = ''Rajesh Kumar'',
      emp_email = ''rajesh.kumar@company.com'', emp_department = ''Engineering'',
      emp_created_at = 100, emp_updated_at = 100\<rparr>"

definition example_registry :: db where
  "example_registry =
     \<lparr>employees = [example_employee], attendance = [], employees_id_seq = 1,
      attendance_id_seq = 0\<rparr>"

definition example_day :: "int \<Rightarrow> Attendance" where
  "example_day k =
     \<lparr>att_id = k, att_employee_id = 1, att_date = 19000 + k,
      att_status = (if k = 10 then ''Absent'' else ''Present''), att_created_at = 200\<rparr>"

definition example_ledger :: db where
  "example_ledger =
     \<lparr>employees = [example_employee],
      attendance = map example_day [1, 2, 3, 4, 5, 6, 7, 8, 9, 10],
      employees_id_seq = 1, attendance_id_seq = 10\<rparr>"

definition second_employee :: Employee where
  "second_employee =
     \<lparr>emp_id = 2, emp_employee_id = ''EMP002'', emp_full_name = ''Priya Sharma'',
      emp_email = ''priya.sharma@company.com'', emp_department = ''Finance'',
      emp_created_at = 150, emp_updated_at = 150\<rparr>"

definition example_pair :: db where
  "example_pair =
     \<lparr>employees = [example_employee, second_employee], attendance = [],
      employees_id_seq = 2, attendance_id_seq = 0\<rparr>"

section \<open>Keys and further example states\<close>

text \<open>The pair that \<open>uq_employee_date\<close> constrains.\<close>

definition att_key :: "Attendance \<Rightarrow> int \<times> date" where
  "att_key a = (att_employee_id a, att_date a)"


text \<open>
  Two more requests (an employee code that differs from \<open>EMP001\<close> in case only, an
  e-mail that differs from the stored one in case only) and the example registry
  after one day was marked.
\<close>

definition lower_code :: EmployeeCreate where
  "lower_code = \<lparr>employee_id = ''emp001'', full_name = ''Rajesh Kumar'',
             email = ''r.kumar@company.com'', department = ''Engineering''\<rparr>"

definition upper_mail :: EmployeeCreate where
  "upper_mail = \<lparr>employee_id = ''EMP777'', full_name = ''Rajesh Kumar'',
             email = ''Rajesh.Kumar@Company.COM'', department = ''Engineering''\<rparr>"


definition example_marked :: db where
  "example_marked =
     \<lparr>employees = [example_employee],
      attendance = [\<lparr>att_id = 1, att_employee_id = 1, att_date = 19001,
                      att_status = ''Present'', att_created_at = 200\<rparr>],
      employees_id_seq = 1, attendance_id_seq = 1\<rparr>"

section \<open>The order of the list and a registry of two\<close>

text \<open>\<open>newer a b\<close>: \<open>a\<close> was created after \<open>b\<close> (a larger key) and not earlier by the clock.\<close>

definition newer :: "Employee \<Rightarrow> Employee \<Rightarrow> bool" where
  "newer a b = (emp_id b < emp_id a \<and> emp_created_at b \<le> emp_created_at a)"


text \<open>The example registry after the request with the lower-case code.\<close>

definition example_two :: db where
  "example_two = snd (create_employee 200 example_registry lower_code)"



definition to_response :: "Employee \<Rightarrow> EmployeeResponse" where
  "to_response emp =
     \<lparr>res_employee_id = emp_employee_id emp, res_full_name = emp_full_name emp,
      res_email = emp_email emp, res_department = emp_department emp,
      res_id = emp_id emp, res_created_at = emp_created_at emp,
      res_updated_at = emp_updated_at emp\<rparr>"

section \<open>What each operation does to the store\<close>

lemma of_char_lower_char:
  "(of_char (lower_char c) :: nat) = (if isupper c then of_char c + 32 else of_char c)"
  by (cases c) (auto simp: lower_char_def isupper_def)

lemma lower_char_idem: "lower_char (lower_char c) = lower_char c"
proof (cases "isupper c")
  case True
  then have "\<not> isupper (lower_char c)"
    by (simp add: isupper_def of_char_lower_char)
  then show ?thesis by (simp add: lower_char_def)
next
  case False
  then show ?thesis by (simp add: lower_char_def)
qed

lemma lower_idem: "lower (lower s) = lower s"
  by (simp add: lower_def lower_char_idem)

lemma find_None_list_ex: "(find P xs = None) = (\<not> list_ex P xs)"
  by (auto simp: find_None_iff list_ex_iff)

lemma create_precheck_None:
  "(create_precheck d data = None) =
     (\<not> list_ex (\<lambda>e. emp_employee_id e = employee_id data \<or> emp_email e = lower (email data)) (employees d))"
  by (auto simp: create_precheck_def get_employee_by_employee_id_def get_employee_by_email_def
       find_None_iff list_ex_iff)

lemma create_employee_ok:
  "create_precheck d data = None \<Longrightarrow>
     create_employee now d data =
       (Inr (new_employee now d data),
        d\<lparr>employees_id_seq := employees_id_seq d + 1,
          employees := employees d @ [new_employee now d data]\<rparr>)"
proof -
  assume a: "create_precheck d data = None"
  then have "\<not> list_ex (\<lambda>e. emp_employee_id e = employee_id data \<or> emp_email e = lower (email data)) (employees d)"
    by (simp add: create_precheck_None)
  with a show ?thesis
    by (simp add: create_employee_def create_commit_def insert_employee_def new_employee_def Let_def)
qed

lemma create_employee_fail:
  "create_precheck d data = Some err \<Longrightarrow> create_employee now d data = (Inl err, d)"
  by (simp add: create_employee_def)

lemma create_employee_cases:
  obtains (rejected) "snd (create_employee now d data) = d"
  | (inserted) "create_precheck d data = None"
      "snd (create_employee now d data) =
         d\<lparr>employees_id_seq := employees_id_seq d + 1,
           employees := employees d @ [new_employee now d data]\<rparr>"
proof (cases "create_precheck d data")
  case None
  then show ?thesis using inserted by (simp add: create_employee_ok)
next
  case (Some err)
  then show ?thesis using rejected by (simp add: create_employee_fail)
qed

lemma find_id: "find (\<lambda>e. emp_id e = i) es = Some cur \<Longrightarrow> emp_id cur = i \<and> cur \<in> set es"
  by (auto simp: find_Some_iff)

lemma emp_id_update_row [simp]: "emp_id (update_row now ch e) = emp_id e"
  by (simp add: update_row_def)

lemma find_map_update_row:
  "find (\<lambda>e. emp_id e = i) (map (\<lambda>e. if emp_id e = i then update_row now ch e else e) es)
     = map_option (update_row now ch) (find (\<lambda>e. emp_id e = i) es)"
  by (induction es) auto

lemma update_employee_cases:
  obtains (same) "snd (update_employee now d i data) = d"
  | (written) cur where "find (\<lambda>e. emp_id e = i) (employees d) = Some cur"
      "net_changes cur data \<noteq> no_changes"
      "\<not> list_ex (\<lambda>e. emp_id e \<noteq> i \<and>
            emp_email e = emp_email (update_row now (net_changes cur data) cur)) (employees d)"
      "update_employee now d i data =
         (Inr (update_row now (net_changes cur data) cur),
          d\<lparr>employees := map (\<lambda>e. if emp_id e = i
                 then update_row now (net_changes cur data) e else e) (employees d)\<rparr>)"
proof (cases "find (\<lambda>e. emp_id e = i) (employees d)")
  case None
  then show ?thesis using same by (simp add: update_employee_def get_employee_by_id_def)
next
  case (Some cur)
  then have id: "emp_id cur = i" by (rule find_id [THEN conjunct1])
  show ?thesis
  proof (cases "update_precheck d i data")
    case (Some err)
    with \<open>find _ _ = Some cur\<close> show ?thesis using same
      by (simp add: update_employee_def get_employee_by_id_def)
  next
    case None
    note pre = None
    show ?thesis
    proof (cases "net_changes cur data = no_changes")
      case True
      with pre Some show ?thesis using same
        by (simp add: update_employee_def get_employee_by_id_def update_commit_def)
    next
      case False
      show ?thesis
      proof (cases "list_ex (\<lambda>e. emp_id e \<noteq> i \<and>
            emp_email e = emp_email (update_row now (net_changes cur data) cur)) (employees d)")
        case True
        with pre Some False id show ?thesis using same
          by (simp add: update_employee_def get_employee_by_id_def update_commit_def
                update_employee_row_def)
      next
        case nodup: False
        have "update_employee now d i data =
         (Inr (update_row now (net_changes cur data) cur),
          d\<lparr>employees := map (\<lambda>e. if emp_id e = i
                 then update_row now (net_changes cur data) e else e) (employees d)\<rparr>)"
          using pre Some False id nodup
          by (simp add: update_employee_def get_employee_by_id_def update_commit_def
                update_employee_row_def refresh_def find_map_update_row Let_def)
        then show ?thesis using written Some False nodup by blast
      qed
    qed
  qed
qed

lemma delete_employee_snd:
  "snd (delete_employee d i) = d \<or> snd (delete_employee d i) = delete_employee_row d i"
  by (auto simp: delete_employee_def get_employee_by_id_def split: option.splits dest: find_id)

lemma status_value_ok: "status_value s = ''Present'' \<or> status_value s = ''Absent''"
  by (cases s) simp_all

lemma find_Some_list_ex: "find P xs = Some x \<Longrightarrow> list_ex P xs"
  by (auto simp: find_Some_iff list_ex_iff)

lemma mark_precheck_None:
  "(mark_precheck today d data = None) =
     (attendance_date data \<le> today \<and> list_ex (\<lambda>e. emp_id e = ac_employee_id data) (employees d)
      \<and> \<not> list_ex (\<lambda>a. att_employee_id a = ac_employee_id data \<and> att_date a = attendance_date data)
            (attendance d))"
proof (cases "find (\<lambda>e. emp_id e = ac_employee_id data) (employees d)")
  case None
  then show ?thesis
    by (simp add: mark_precheck_def find_None_list_ex [symmetric])
next
  case e: (Some employee)
  show ?thesis
  proof (cases "find (\<lambda>a. att_employee_id a = ac_employee_id data \<and> att_date a = attendance_date data)
            (attendance d)")
    case None
    with e find_Some_list_ex [OF e] show ?thesis
      by (simp add: mark_precheck_def check_duplicate_attendance_def find_None_list_ex [symmetric])
  next
    case (Some existing)
    with e find_Some_list_ex [OF Some] show ?thesis
      by (simp add: mark_precheck_def check_duplicate_attendance_def)
  qed
qed

lemma mark_attendance_ok:
  assumes "mark_precheck today d data = None"
  shows "mark_attendance today now d data =
       (Inr (new_attendance now d data),
        d\<lparr>attendance_id_seq := attendance_id_seq d + 1,
          attendance := attendance d @ [new_attendance now d data]\<rparr>)"
proof -
  from assms have "list_ex (\<lambda>e. emp_id e = ac_employee_id data) (employees d)"
    and "\<not> list_ex (\<lambda>a. att_employee_id a = ac_employee_id data \<and> att_date a = attendance_date data)
            (attendance d)"
    by (simp_all add: mark_precheck_None)
  then show ?thesis using assms
    by (cases "status data")
       (simp_all add: mark_attendance_def mark_commit_def insert_attendance_def
          new_attendance_def Let_def)
qed

lemma mark_attendance_cases:
  obtains (rejected) "snd (mark_attendance today now d data) = d"
  | (inserted) "mark_precheck today d data = None"
      "snd (mark_attendance today now d data) =
         d\<lparr>attendance_id_seq := attendance_id_seq d + 1,
           attendance := attendance d @ [new_attendance now d data]\<rparr>"
proof (cases "mark_precheck today d data")
  case None
  then show ?thesis using inserted by (simp add: mark_attendance_ok)
next
  case (Some err)
  then show ?thesis using rejected by (simp add: mark_attendance_def)
qed

section \<open>Future dates\<close>

text \<open>
  A request that comes through the route has passed \<open>AttendanceCreate\<close>, which refuses
  a future date with a validation error of its own; what the schema lets through has
  a date that is not after today. The check in the service is the one that answers a
  caller that hands it a future date.
\<close>

lemma schema_rejects_future_date:
  "today < req_date raw \<Longrightarrow>
     \<exists>fs. AttendanceCreate_validate today raw = Inl (RequestValidationError fs)
          \<and> ''date'' \<in> set fs"
  by (auto simp: AttendanceCreate_validate_def validate_date_not_future_def failed_def
        split: option.splits)

lemma schema_accepts_past_date:
  "AttendanceCreate_validate today raw = Inr data \<Longrightarrow>
     attendance_date data \<le> today \<and> 0 < ac_employee_id data"
  by (auto simp: AttendanceCreate_validate_def validate_date_not_future_def
        split: option.splits if_splits)

lemma schema_normalizes_status:
  "AttendanceCreate_validate 19020
     \<lparr>req_employee_id = 1, req_date = 19001, req_status = '' pRESENT ''\<rparr>
   = Inr \<lparr>ac_employee_id = 1, attendance_date = 19001, status = PRESENT\<rparr>"
  by code_simp

text \<open>
  C6. \<open>mark_attendance\<close> with a date strictly after the current date fails with
  \<open>InvalidDateException\<close> and returns the store as it was, whatever the store holds:
  the date is checked before the employee and before the duplicate, so the answer is
  the same when the employee does not exist.
\<close>

theorem mark_future_date_invalid:
  "today < attendance_date data \<Longrightarrow>
     mark_attendance today now d data =
       (Inl (InvalidDateException (attendance_date data)
               ''Cannot mark attendance for future dates''), d)"
  by (simp add: mark_attendance_def mark_precheck_def)

theorem mark_future_date_invalid_witness:
  "(5::int) < attendance_date \<lparr>ac_employee_id = 7, attendance_date = 6, status = PRESENT\<rparr> \<and>
   find (\<lambda>e. emp_id e = 7) (employees init_db) = None \<and>
   mark_attendance 5 100 init_db \<lparr>ac_employee_id = 7, attendance_date = 6, status = PRESENT\<rparr> =
       (Inl (InvalidDateException 6 ''Cannot mark attendance for future dates''), init_db)"
  using mark_future_date_invalid
    [of 5 "\<lparr>ac_employee_id = 7, attendance_date = 6, status = PRESENT\<rparr>" 100 init_db]
  by (simp add: init_db_def)

section \<open>The example states are states of the program\<close>

lemma rajesh_valid: "EmployeeCreate_validate rajesh = Inr rajesh"
  by code_simp

lemma example_registry_created:
  "create_employee 100 init_db rajesh = (Inr example_employee, example_registry)"
  by code_simp

lemma example_registry_reachable:
  "reachable \<lparr>clock_utcnow = 200, clock_today = 19020\<rparr> example_registry"
proof -
  have "reachable \<lparr>clock_utcnow = 100, clock_today = 19000\<rparr> init_db"
    by (rule reachable.start)
  from reachable.create [OF this rajesh_valid]
  have "reachable \<lparr>clock_utcnow = 100, clock_today = 19000\<rparr> example_registry"
    by (simp add: example_registry_created)
  then show ?thesis
    by (rule reachable.tick) simp_all
qed

section \<open>Deleting an employee\<close>

text \<open>
  C4. \<open>delete_employee\<close> on an id that no employee has fails with
  \<open>EmployeeNotFoundException\<close> (the one exception class behind both \<open>NotFound\<close> and
  \<open>EmployeeNotFound\<close>) and returns the store as it was. On an id that exists it
  returns the store without that employee and without every attendance row that
  references it, both at once; no employee and no attendance row with that id is left,
  and \<open>get_attendance_by_employee\<close> on the result fails with
  \<open>EmployeeNotFoundException\<close>.
\<close>

theorem delete_employee_cascade:
  "(\<not> list_ex (\<lambda>e. emp_id e = i) (employees d) \<longrightarrow>
      delete_employee d i = (Inl (EmployeeNotFoundException i), d)) \<and>
   (list_ex (\<lambda>e. emp_id e = i) (employees d) \<longrightarrow>
      delete_employee d i =
        (Inr True, d\<lparr>employees := filter (\<lambda>e. emp_id e \<noteq> i) (employees d),
                     attendance := filter (\<lambda>a. att_employee_id a \<noteq> i) (attendance d)\<rparr>) \<and>
      \<not> list_ex (\<lambda>e. emp_id e = i) (employees (snd (delete_employee d i))) \<and>
      \<not> list_ex (\<lambda>a. att_employee_id a = i) (attendance (snd (delete_employee d i))) \<and>
      get_attendance_by_employee (snd (delete_employee d i)) i = Inl (EmployeeNotFoundException i))"
proof (cases "find (\<lambda>e. emp_id e = i) (employees d)")
  case None
  then have "\<not> list_ex (\<lambda>e. emp_id e = i) (employees d)"
    by (simp add: find_None_list_ex)
  with None show ?thesis
    by (simp add: delete_employee_def get_employee_by_id_def)
next
  case (Some employee)
  have ex: "list_ex (\<lambda>e. emp_id e = i) (employees d)"
    using Some by (rule find_Some_list_ex)
  have id: "emp_id employee = i"
    using Some by (rule find_id [THEN conjunct1])
  have del: "delete_employee d i = (Inr True, delete_employee_row d i)"
    using Some id by (simp add: delete_employee_def get_employee_by_id_def)
  have "find (\<lambda>e. emp_id e = i) (filter (\<lambda>e. emp_id e \<noteq> i) (employees d)) = None"
    by (simp add: find_None_iff)
  then have "get_attendance_by_employee (delete_employee_row d i) i = Inl (EmployeeNotFoundException i)"
    by (simp add: get_attendance_by_employee_def delete_employee_row_def)
  with ex del show ?thesis
    by (simp add: delete_employee_row_def list_ex_iff)
qed

theorem delete_employee_cascade_witness:
  "\<not> list_ex (\<lambda>e. emp_id e = 2) (employees example_ledger) \<and>
   delete_employee example_ledger 2 = (Inl (EmployeeNotFoundException 2), example_ledger) \<and>
   list_ex (\<lambda>e. emp_id e = 1) (employees example_ledger) \<and>
   delete_employee example_ledger 1 =
     (Inr True, \<lparr>employees = [], attendance = [], employees_id_seq = 1, attendance_id_seq = 10\<rparr>) \<and>
   get_attendance_by_employee (snd (delete_employee example_ledger 1)) 1
     = Inl (EmployeeNotFoundException 1)"
proof -
  have no: "\<not> list_ex (\<lambda>e. emp_id e = 2) (employees example_ledger)"
    and yes: "list_ex (\<lambda>e. emp_id e = 1) (employees example_ledger)"
    by code_simp+
  have after: "example_ledger\<lparr>employees := filter (\<lambda>e. emp_id e \<noteq> 1) (employees example_ledger),
         attendance := filter (\<lambda>a. att_employee_id a \<noteq> 1) (attendance example_ledger)\<rparr>
     = \<lparr>employees = [], attendance = [], employees_id_seq = 1, attendance_id_seq = 10\<rparr>"
    by code_simp
  show ?thesis
    using delete_employee_cascade [of 2 example_ledger]
      delete_employee_cascade [of 1 example_ledger] no yes after
    by (simp add: get_attendance_by_employee_def)
qed

section \<open>The attendance summary\<close>

lemma sum_list_ones: "sum_list (map (\<lambda>r. (1::int)) xs) = int (length xs)"
  by (induction xs) simp_all

text \<open>
  C5. For an employee that exists, \<open>calculate_present_days\<close> returns the employee's id
  and name, \<open>total_days\<close> the number of attendance rows of the employee, \<open>present_days\<close>
  the number of those with status \<open>Present\<close>, \<open>absent_days\<close> their difference (so the
  two add up to \<open>total_days\<close> and neither is negative), and as percentage
  \<open>round(present_days / total_days * 100, 2)\<close> when \<open>total_days > 0\<close> and \<open>0.0\<close>
  otherwise, whatever the floating-point operations compute. For an employee that does
  not exist it fails with \<open>EmployeeNotFoundException\<close>. The result depends on the two
  tables only.
\<close>

theorem summary_consistent:
  "(list_ex (\<lambda>e. emp_id e = eid) (employees d) \<longrightarrow>
      (\<exists>s employee. calculate_present_days ops d eid = Inr s \<and>
         find (\<lambda>e. emp_id e = eid) (employees d) = Some employee \<and>
         sum_employee_id s = eid \<and> sum_employee_name s = emp_full_name employee \<and>
         total_days s = int (length (filter (\<lambda>a. att_employee_id a = eid) (attendance d))) \<and>
         present_days s =
           int (length (filter (\<lambda>a. att_employee_id a = eid \<and> att_status a = ''Present'')
                  (attendance d))) \<and>
         absent_days s = total_days s - present_days s \<and>
         present_days s + absent_days s = total_days s \<and>
         0 \<le> present_days s \<and> 0 \<le> absent_days s \<and>
         attendance_percentage s =
           (if total_days s > 0
            then round_ndigits ops (fmul ops (truediv ops (present_days s) (total_days s)) 100) 2
            else float_zero ops))) \<and>
   (\<not> list_ex (\<lambda>e. emp_id e = eid) (employees d) \<longrightarrow>
      calculate_present_days ops d eid = Inl (EmployeeNotFoundException eid)) \<and>
   (employees d' = employees d \<and> attendance d' = attendance d \<longrightarrow>
      calculate_present_days ops d' eid = calculate_present_days ops d eid)"
proof (cases "find (\<lambda>e. emp_id e = eid) (employees d)")
  case None
  then have "\<not> list_ex (\<lambda>e. emp_id e = eid) (employees d)"
    by (simp add: find_None_list_ex)
  with None show ?thesis
    by (simp add: calculate_present_days_def)
next
  case (Some employee)
  have ex: "list_ex (\<lambda>e. emp_id e = eid) (employees d)"
    using Some by (rule find_Some_list_ex)
  have le: "length (filter (\<lambda>a. att_employee_id a = eid \<and> att_status a = ''Present'') (attendance d))
     \<le> length (filter (\<lambda>a. att_employee_id a = eid) (attendance d))"
    using length_filter_le [of "\<lambda>a. att_status a = ''Present''"
        "filter (\<lambda>a. att_employee_id a = eid) (attendance d)"]
    by simp
  have det: "employees d' = employees d \<and> attendance d' = attendance d \<longrightarrow>
      calculate_present_days ops d' eid = calculate_present_days ops d eid"
    by (simp add: calculate_present_days_def cong: option.case_cong)
  have "\<exists>s. calculate_present_days ops d eid = Inr s \<and>
         sum_employee_id s = eid \<and> sum_employee_name s = emp_full_name employee \<and>
         total_days s = int (length (filter (\<lambda>a. att_employee_id a = eid) (attendance d))) \<and>
         present_days s =
           int (length (filter (\<lambda>a. att_employee_id a = eid \<and> att_status a = ''Present'')
                  (attendance d))) \<and>
         absent_days s = total_days s - present_days s \<and>
         attendance_percentage s =
           (if total_days s > 0
            then round_ndigits ops (fmul ops (truediv ops (present_days s) (total_days s)) 100) 2
            else float_zero ops)"
    using Some by (simp add: calculate_present_days_def Let_def sum_list_ones)
  then obtain s where s: "calculate_present_days ops d eid = Inr s"
         "sum_employee_id s = eid" "sum_employee_name s = emp_full_name employee"
         "total_days s = int (length (filter (\<lambda>a. att_employee_id a = eid) (attendance d)))"
         "present_days s =
           int (length (filter (\<lambda>a. att_employee_id a = eid \<and> att_status a = ''Present'')
                  (attendance d)))"
         "absent_days s = total_days s - present_days s"
         "attendance_percentage s =
           (if total_days s > 0
            then round_ndigits ops (fmul ops (truediv ops (present_days s) (total_days s)) 100) 2
            else float_zero ops)"
    by blast
  from s(4,5,6) le have ar: "present_days s + absent_days s = total_days s"
      "0 \<le> present_days s" "0 \<le> absent_days s"
    by simp_all
  from ex Some s ar det show ?thesis by blast
qed

theorem summary_consistent_witness:
  "list_ex (\<lambda>e. emp_id e = 1) (employees example_ledger) \<and>
   calculate_present_days exact_ops example_ledger 1 =
     Inr \<lparr>sum_employee_id = 1, sum_employee_name = ''Rajesh Kumar'', total_days = 10,
           present_days = 9, absent_days = 1, attendance_percentage = 90\<rparr> \<and>
   \<not> list_ex (\<lambda>e. emp_id e = 2) (employees example_ledger) \<and>
   calculate_present_days exact_ops example_ledger 2 = Inl (EmployeeNotFoundException 2) \<and>
   employees (example_ledger\<lparr>employees_id_seq := 7\<rparr>) = employees example_ledger \<and>
   attendance (example_ledger\<lparr>employees_id_seq := 7\<rparr>) = attendance example_ledger \<and>
   calculate_present_days exact_ops (example_ledger\<lparr>employees_id_seq := 7\<rparr>) 1
     = calculate_present_days exact_ops example_ledger 1"
proof -
  have yes: "list_ex (\<lambda>e. emp_id e = 1) (employees example_ledger)"
    and no: "\<not> list_ex (\<lambda>e. emp_id e = 2) (employees example_ledger)"
    by code_simp+
  have val: "calculate_present_days exact_ops example_ledger 1 =
     Inr \<lparr>sum_employee_id = 1, sum_employee_name = ''Rajesh Kumar'', total_days = 10,
           present_days = 9, absent_days = 1, attendance_percentage = 90\<rparr>"
    by code_simp
  show ?thesis
    using summary_consistent [of 2 example_ledger exact_ops example_ledger]
      summary_consistent [of 1 example_ledger exact_ops "example_ledger\<lparr>employees_id_seq := 7\<rparr>"]
      yes no val
    by simp
qed

section \<open>Conflicts found at commit time\<close>

lemma create_precheck_kind:
  "create_precheck d data = Some err \<Longrightarrow> \<exists>f v. err = DuplicateEmployeeException f v None"
  by (auto simp: create_precheck_def split: if_splits)

lemma update_precheck_kind:
  "update_precheck d i data = Some err \<Longrightarrow> \<exists>f v. err = DuplicateEmployeeException f v None"
  by (auto simp: update_precheck_def split: option.splits if_splits)

lemma insert_employee_tables:
  "fst (insert_employee now d v) = Inl ie \<Longrightarrow>
     snd (insert_employee now d v) = d\<lparr>employees_id_seq := employees_id_seq d + 1\<rparr>"
  by (auto simp: insert_employee_def Let_def split: if_splits)

lemma insert_attendance_tables:
  "fst (insert_attendance now d eid dt st) = Inl ie \<Longrightarrow>
     snd (insert_attendance now d eid dt st) = d\<lparr>attendance_id_seq := attendance_id_seq d + 1\<rparr>"
  by (auto simp: insert_attendance_def Let_def split: if_splits)

lemma create_commit_rejected:
  assumes "fst (insert_employee now d (data\<lparr>email := lower (email data)\<rparr>)) = Inl ie"
  shows "create_commit now d data =
           (Inl (DuplicateEmployeeException ''employee_id'' None
                   (Some ''Employee with this ID or email already exists'')),
            d\<lparr>employees_id_seq := employees_id_seq d + 1\<rparr>)"
proof -
  obtain r d' where p: "insert_employee now d (data\<lparr>email := lower (email data)\<rparr>) = (r, d')"
    by (cases "insert_employee now d (data\<lparr>email := lower (email data)\<rparr>)")
  with assms insert_employee_tables [OF assms] have "r = Inl ie"
    and "d' = d\<lparr>employees_id_seq := employees_id_seq d + 1\<rparr>"
    by simp_all
  with p show ?thesis by (simp add: create_commit_def)
qed

lemma mark_commit_rejected:
  assumes "fst (insert_attendance now d (ac_employee_id data) (attendance_date data)
                  (status_value (status data))) = Inl ie"
  shows "mark_commit now d data =
           (Inl (DuplicateAttendanceException (ac_employee_id data) (attendance_date data)),
            d\<lparr>attendance_id_seq := attendance_id_seq d + 1\<rparr>)"
proof -
  obtain r d' where p: "insert_attendance now d (ac_employee_id data) (attendance_date data)
                  (status_value (status data)) = (r, d')"
    by (cases "insert_attendance now d (ac_employee_id data) (attendance_date data)
                  (status_value (status data))")
  with assms insert_attendance_tables [OF assms] have "r = Inl ie"
    and "d' = d\<lparr>attendance_id_seq := attendance_id_seq d + 1\<rparr>"
    by simp_all
  with p show ?thesis by (simp add: mark_commit_def)
qed

text \<open>
  C3. A writer whose reads saw \<open>snap\<close> and whose write meets \<open>d\<close>: when the reads
  found no conflict and the storage rejects the write with a uniqueness violation,
  \<open>create_employee\<close> and \<open>update_employee\<close> answer \<open>DuplicateEmployeeException\<close> and
  \<open>mark_attendance\<close> answers \<open>DuplicateAttendanceException\<close>, never the storage error,
  and both tables are as before the write (an insert that was rejected has used up one
  value of the key sequence, nothing else). These are the exceptions of the reads:
  a failing read of create or update raises \<open>DuplicateEmployeeException\<close>, as the read of
  create would on the store the write met, and the read of mark would have found the
  record there.
\<close>

theorem commit_time_duplicate:
  "(create_precheck snap data = None \<and>
    fst (insert_employee now d (data\<lparr>email := lower (email data)\<rparr>)) = Inl UniqueViolation \<longrightarrow>
      create_employee_racing snap now d data =
        (Inl (DuplicateEmployeeException ''employee_id'' None
                (Some ''Employee with this ID or email already exists'')),
         d\<lparr>employees_id_seq := employees_id_seq d + 1\<rparr>) \<and>
      employees (snd (create_employee_racing snap now d data)) = employees d \<and>
      attendance (snd (create_employee_racing snap now d data)) = attendance d \<and>
      (\<exists>f v. create_precheck d data = Some (DuplicateEmployeeException f v None))) \<and>
   (get_employee_by_id snap i = Inr employee \<and> update_precheck snap i upd = None \<and>
    net_changes employee upd \<noteq> no_changes \<and>
    update_employee_row now d (emp_id employee) (net_changes employee upd)
      = Some (Inl UniqueViolation) \<longrightarrow>
      update_employee_racing snap now d i upd =
        (Inl (DuplicateEmployeeException ''employee_id'' None (Some ''Email already exists'')), d)) \<and>
   (\<forall>err. update_precheck d i upd = Some err \<longrightarrow>
      (\<exists>f v. err = DuplicateEmployeeException f v None)) \<and>
   (mark_precheck today snap att = None \<and>
    fst (insert_attendance now d (ac_employee_id att) (attendance_date att)
           (status_value (status att))) = Inl UniqueViolation \<longrightarrow>
      mark_attendance_racing snap today now d att =
        (Inl (DuplicateAttendanceException (ac_employee_id att) (attendance_date att)),
         d\<lparr>attendance_id_seq := attendance_id_seq d + 1\<rparr>) \<and>
      employees (snd (mark_attendance_racing snap today now d att)) = employees d \<and>
      attendance (snd (mark_attendance_racing snap today now d att)) = attendance d \<and>
      check_duplicate_attendance d (ac_employee_id att) (attendance_date att) \<noteq> None)"
proof -
  have c: "create_employee_racing snap now d data =
        (Inl (DuplicateEmployeeException ''employee_id'' None
                (Some ''Employee with this ID or email already exists'')),
         d\<lparr>employees_id_seq := employees_id_seq d + 1\<rparr>) \<and>
      employees (snd (create_employee_racing snap now d data)) = employees d \<and>
      attendance (snd (create_employee_racing snap now d data)) = attendance d \<and>
      (\<exists>f v. create_precheck d data = Some (DuplicateEmployeeException f v None))"
    if pre: "create_precheck snap data = None"
      and rej: "fst (insert_employee now d (data\<lparr>email := lower (email data)\<rparr>)) = Inl UniqueViolation"
  proof -
    have "create_precheck d data \<noteq> None"
    proof
      assume "create_precheck d data = None"
      then have "\<not> list_ex (\<lambda>e. emp_employee_id e = employee_id data \<or>
                    emp_email e = lower (email data)) (employees d)"
        by (simp add: create_precheck_None)
      then have "fst (insert_employee now d (data\<lparr>email := lower (email data)\<rparr>)) \<noteq> Inl UniqueViolation"
        by (simp add: insert_employee_def Let_def)
      with rej show False by simp
    qed
    then obtain err where "create_precheck d data = Some err" by blast
    with create_precheck_kind [OF this]
    have "\<exists>f v. create_precheck d data = Some (DuplicateEmployeeException f v None)" by blast
    with pre create_commit_rejected [OF rej] show ?thesis
      by (simp add: create_employee_racing_def)
  qed
  have u: "update_employee_racing snap now d i upd =
        (Inl (DuplicateEmployeeException ''employee_id'' None (Some ''Email already exists'')), d)"
    if "get_employee_by_id snap i = Inr employee" "update_precheck snap i upd = None"
      "net_changes employee upd \<noteq> no_changes"
      "update_employee_row now d (emp_id employee) (net_changes employee upd)
         = Some (Inl UniqueViolation)"
    using that by (simp add: update_employee_racing_def update_commit_def)
  have uk: "\<forall>err. update_precheck d i upd = Some err \<longrightarrow>
      (\<exists>f v. err = DuplicateEmployeeException f v None)"
    using update_precheck_kind by blast
  have m: "mark_attendance_racing snap today now d att =
        (Inl (DuplicateAttendanceException (ac_employee_id att) (attendance_date att)),
         d\<lparr>attendance_id_seq := attendance_id_seq d + 1\<rparr>) \<and>
      employees (snd (mark_attendance_racing snap today now d att)) = employees d \<and>
      attendance (snd (mark_attendance_racing snap today now d att)) = attendance d \<and>
      check_duplicate_attendance d (ac_employee_id att) (attendance_date att) \<noteq> None"
    if pre: "mark_precheck today snap att = None"
      and rej: "fst (insert_attendance now d (ac_employee_id att) (attendance_date att)
           (status_value (status att))) = Inl UniqueViolation"
  proof -
    have "list_ex (\<lambda>a. att_employee_id a = ac_employee_id att \<and> att_date a = attendance_date att)
            (attendance d)"
      using rej by (auto simp: insert_attendance_def Let_def split: if_splits)
    then have "check_duplicate_attendance d (ac_employee_id att) (attendance_date att) \<noteq> None"
      by (simp add: check_duplicate_attendance_def find_None_list_ex)
    with pre mark_commit_rejected [OF rej] show ?thesis
      by (simp add: mark_attendance_racing_def)
  qed
  from c u uk m show ?thesis by blast
qed

theorem commit_time_duplicate_witness:
  "create_precheck init_db rajesh = None \<and>
   fst (insert_employee 300 example_ledger (rajesh\<lparr>email := lower (email rajesh)\<rparr>))
     = Inl UniqueViolation \<and>
   create_employee_racing init_db 300 example_ledger rajesh =
     (Inl (DuplicateEmployeeException ''employee_id'' None
             (Some ''Employee with this ID or email already exists'')),
      example_ledger\<lparr>employees_id_seq := 2\<rparr>) \<and>
   get_employee_by_id example_registry 1 = Inr example_employee \<and>
   update_precheck example_registry 1
     \<lparr>upd_full_name = None, upd_email = Some ''priya.sharma@company.com'', upd_department = None\<rparr>
     = None \<and>
   update_employee_racing example_registry 300 example_pair 1
     \<lparr>upd_full_name = None, upd_email = Some ''priya.sharma@company.com'', upd_department = None\<rparr>
     = (Inl (DuplicateEmployeeException ''employee_id'' None (Some ''Email already exists'')),
        example_pair) \<and>
   mark_precheck 19020 example_registry
     \<lparr>ac_employee_id = 1, attendance_date = 19001, status = ABSENT\<rparr> = None \<and>
   mark_attendance_racing example_registry 19020 300 example_ledger
     \<lparr>ac_employee_id = 1, attendance_date = 19001, status = ABSENT\<rparr>
     = (Inl (DuplicateAttendanceException 1 19001), example_ledger\<lparr>attendance_id_seq := 11\<rparr>)"
proof -
  let ?upd = "\<lparr>upd_full_name = None, upd_email = Some ''priya.sharma@company.com'',
                upd_department = None\<rparr>"
  let ?att = "\<lparr>ac_employee_id = 1, attendance_date = 19001, status = ABSENT\<rparr>"
  have c1: "create_precheck init_db rajesh = None"
    and c2: "fst (insert_employee 300 example_ledger (rajesh\<lparr>email := lower (email rajesh)\<rparr>))
               = Inl UniqueViolation"
    and c3: "employees_id_seq example_ledger + 1 = 2"
    by code_simp+
  have u1: "get_employee_by_id example_registry 1 = Inr example_employee"
    and u2: "update_precheck example_registry 1 ?upd = None"
    and u3: "net_changes example_employee ?upd \<noteq> no_changes"
    and u4: "update_employee_row 300 example_pair (emp_id example_employee)
               (net_changes example_employee ?upd) = Some (Inl UniqueViolation)"
    by code_simp+
  have m1: "mark_precheck 19020 example_registry ?att = None"
    and m2: "fst (insert_attendance 300 example_ledger (ac_employee_id ?att) (attendance_date ?att)
               (status_value (status ?att))) = Inl UniqueViolation"
    and m3: "attendance_id_seq example_ledger + 1 = 11"
    by code_simp+
  show ?thesis
    using commit_time_duplicate [where snap = init_db and data = rajesh and now = 300
        and d = example_ledger]
      commit_time_duplicate [where snap = example_registry and now = 300 and d = example_pair
        and i = 1 and employee = example_employee and upd = "?upd"]
      commit_time_duplicate [where snap = example_registry and now = 300 and d = example_ledger
        and today = 19020 and att = "?att"]
      c1 c2 c3 u1 u2 u3 u4 m1 m2 m3
    by simp
qed

section \<open>Validation of updates\<close>

lemma EmployeeUpdate_validate_rejects:
  "update_full_name (upd_full_name raw) = None \<or> update_email (upd_email raw) = None
     \<or> update_department (upd_department raw) = None
   \<Longrightarrow> \<exists>fs. fs \<noteq> [] \<and> EmployeeUpdate_validate raw = Inl (RequestValidationError fs)"
  by (auto simp: EmployeeUpdate_validate_def failed_def split: option.splits)

text \<open>
  C7, amended. A supplied e-mail that is not blank after trimming is validated and
  normalized by the update schema exactly as by the create schema (at most 255
  characters, trimmed, lower-cased, matching the pattern); one that is blank after
  trimming counts as not supplied when it has at most 255 characters and is rejected
  when it has more. A supplied name or department that is already
  trimmed is accepted or rejected by the update schema exactly as by the create
  schema. A rejected field makes the update schema fail with a validation error.
\<close>

theorem update_validation_amended:
  "(lower (strip m) \<noteq> [] \<longrightarrow> update_email (Some m) = map_option Some (create_email m)) \<and>
   (lower (strip m) = [] \<longrightarrow>
      update_email (Some m) = (if length m \<le> 255 then Some None else None)) \<and>
   (strip n = n \<longrightarrow> update_full_name (Some n) = map_option Some (create_full_name n)) \<and>
   (strip p = p \<longrightarrow> update_department (Some p) = map_option Some (create_department p)) \<and>
   (update_full_name (upd_full_name raw) = None \<or> update_email (upd_email raw) = None
      \<or> update_department (upd_department raw) = None
    \<longrightarrow> (\<exists>fs. fs \<noteq> [] \<and> EmployeeUpdate_validate raw = Inl (RequestValidationError fs)))"
proof -
  have e1: "lower (strip m) \<noteq> [] \<longrightarrow> update_email (Some m) = map_option Some (create_email m)"
    by (simp add: update_email_def update_validate_email_def create_email_def validate_email_def
          Let_def)
  have e2: "lower (strip m) = [] \<longrightarrow>
      update_email (Some m) = (if length m \<le> 255 then Some None else None)"
    by (simp add: update_email_def update_validate_email_def field_length_def Let_def)
  have n: "strip n = n \<longrightarrow> update_full_name (Some n) = map_option Some (create_full_name n)"
    by (auto simp: update_full_name_def create_full_name_def validate_full_name_def
          field_length_def Let_def)
  have p: "strip p = p \<longrightarrow> update_department (Some p) = map_option Some (create_department p)"
    by (auto simp: update_department_def create_department_def validate_department_def
          field_length_def Let_def)
  from e1 e2 n p EmployeeUpdate_validate_rejects [of raw] show ?thesis by blast
qed

text \<open>
  C7 as stated asks that \<open>EmployeeUpdate\<close> validate each supplied field as
  \<open>EmployeeCreate\<close> does. It does not: a name of three blanks and a department of one
  blank pass the update schema unchanged and are stored, and a blank e-mail passes as
  a field left out, where the create schema rejects all three.
\<close>

theorem update_validation_counterexample:
  "create_full_name ''   '' = None \<and> update_full_name (Some ''   '') = Some (Some ''   '') \<and>
   create_department '' '' = None \<and> update_department (Some '' '') = Some (Some '' '') \<and>
   create_email ''  '' = None \<and> update_email (Some ''  '') = Some None \<and>
   EmployeeUpdate_validate
     \<lparr>upd_full_name = Some ''   '', upd_email = Some ''  '', upd_department = Some '' ''\<rparr>
     = Inr \<lparr>upd_full_name = Some ''   '', upd_email = None, upd_department = Some '' ''\<rparr> \<and>
   map emp_full_name (employees (snd (update_employee 200 example_registry 1
     \<lparr>upd_full_name = Some ''   '', upd_email = None, upd_department = Some '' ''\<rparr>)))
     = [''   '']"
  by code_simp

theorem update_validation_amended_witness:
  "lower (strip '' Rajesh.K@Company.com '') \<noteq> [] \<and>
   update_email (Some '' Rajesh.K@Company.com '') = Some (Some ''rajesh.k@company.com'') \<and>
   create_email '' Rajesh.K@Company.com '' = Some ''rajesh.k@company.com'' \<and>
   lower (strip ''  '') = [] \<and> update_email (Some ''  '') = Some None \<and>
   lower (strip (replicate 256 CHR '' '')) = [] \<and>
   update_email (Some (replicate 256 CHR '' '')) = None \<and>
   strip ''R'' = ''R'' \<and> update_full_name (Some ''R'') = None \<and> create_full_name ''R'' = None \<and>
   strip ''HR'' = ''HR'' \<and> update_department (Some ''HR'') = Some (Some ''HR'') \<and>
   (\<exists>fs. EmployeeUpdate_validate
            \<lparr>upd_full_name = Some ''R'', upd_email = None, upd_department = None\<rparr>
          = Inl (RequestValidationError fs))"
proof -
  have a: "lower (strip '' Rajesh.K@Company.com '') \<noteq> []"
    and b: "create_email '' Rajesh.K@Company.com '' = Some ''rajesh.k@company.com''"
    and c: "lower (strip ''  '') = []" "length ''  '' \<le> 255"
    and c': "lower (strip (replicate 256 CHR '' '')) = []"
    and d: "strip ''R'' = ''R''" "create_full_name ''R'' = None"
    and e: "strip ''HR'' = ''HR''" "create_department ''HR'' = Some ''HR''"
    by code_simp+
  show ?thesis
    using update_validation_amended [of "'' Rajesh.K@Company.com ''" "''R''" "''HR''"
        "\<lparr>upd_full_name = Some ''R'', upd_email = None, upd_department = None\<rparr>"]
      update_validation_amended [of "''  ''" "''R''" "''HR''"
        "\<lparr>upd_full_name = Some ''R'', upd_email = None, upd_department = None\<rparr>"]
      update_validation_amended [of "replicate 256 CHR '' ''" "''R''" "''HR''"
        "\<lparr>upd_full_name = Some ''R'', upd_email = None, upd_department = None\<rparr>"]
      a b c c' d e
    by auto
qed

section \<open>The update timestamp\<close>

lemma net_changes_none:
  "(net_changes cur data = no_changes) =
     ((\<forall>v. upd_full_name data = Some v \<longrightarrow> v = emp_full_name cur) \<and>
      (\<forall>v. upd_email data = Some v \<longrightarrow> v = emp_email cur) \<and>
      (\<forall>v. upd_department data = Some v \<longrightarrow> v = emp_department cur))"
  by (auto simp: net_changes_def no_changes_def changed_def split: option.splits if_splits)

text \<open>
  C8, amended. A successful \<open>update_employee\<close> that supplies a name, e-mail or department
  different from the stored one sets \<open>updated_at\<close> to the current time, in the returned
  employee and in the store; one that supplies no such value leaves the store, and
  with it \<open>updated_at\<close>, as it was.
\<close>

theorem update_refreshes_on_change:
  assumes "find (\<lambda>e. emp_id e = i) (employees d) = Some cur"
    and "update_employee now d i data = (Inr e', d')"
  shows "((\<exists>v. upd_full_name data = Some v \<and> v \<noteq> emp_full_name cur) \<or>
          (\<exists>v. upd_email data = Some v \<and> v \<noteq> emp_email cur) \<or>
          (\<exists>v. upd_department data = Some v \<and> v \<noteq> emp_department cur)
          \<longrightarrow> emp_updated_at e' = now \<and> find (\<lambda>e. emp_id e = i) (employees d') = Some e') \<and>
         (\<not> ((\<exists>v. upd_full_name data = Some v \<and> v \<noteq> emp_full_name cur) \<or>
          (\<exists>v. upd_email data = Some v \<and> v \<noteq> emp_email cur) \<or>
          (\<exists>v. upd_department data = Some v \<and> v \<noteq> emp_department cur))
          \<longrightarrow> d' = d \<and> e' = cur \<and> emp_updated_at e' = emp_updated_at cur)"
proof (cases "net_changes cur data = no_changes")
  case True
  have pre: "update_precheck d i data = None"
    using assms by (auto simp: update_employee_def get_employee_by_id_def split: option.splits)
  have id: "emp_id cur = i" using assms(1) by (rule find_id [THEN conjunct1])
  from True pre assms id have "d' = d \<and> e' = cur"
    by (simp add: update_employee_def get_employee_by_id_def update_commit_def refresh_def)
  with True show ?thesis by (auto simp: net_changes_none)
next
  case False
  have id: "emp_id cur = i" using assms(1) by (rule find_id [THEN conjunct1])
  have pre: "update_precheck d i data = None"
    using assms by (auto simp: update_employee_def get_employee_by_id_def split: option.splits)
  from False pre assms id
  have "e' = update_row now (net_changes cur data) cur \<and>
        find (\<lambda>e. emp_id e = i) (employees d') = Some e'"
    by (auto simp: update_employee_def get_employee_by_id_def update_commit_def refresh_def
          update_employee_row_def find_map_update_row Let_def split: if_splits)
  then have "emp_updated_at e' = now \<and> find (\<lambda>e. emp_id e = i) (employees d') = Some e'"
    by (simp add: update_row_def)
  with False show ?thesis by (auto simp: net_changes_none)
qed

text \<open>
  C8 as stated asks that every successful update refresh \<open>updated_at\<close>. In the
  reachable example registry an update at tick 200 that supplies no field succeeds
  and leaves \<open>updated_at\<close> at 100.
\<close>

theorem update_refreshes_counterexample:
  "reachable \<lparr>clock_utcnow = 200, clock_today = 19020\<rparr> example_registry \<and>
   update_employee 200 example_registry 1
     \<lparr>upd_full_name = None, upd_email = None, upd_department = None\<rparr>
     = (Inr example_employee, example_registry) \<and>
   emp_updated_at example_employee = 100 \<and> emp_updated_at example_employee \<noteq> 200"
proof -
  have "update_employee 200 example_registry 1
     \<lparr>upd_full_name = None, upd_email = None, upd_department = None\<rparr>
     = (Inr example_employee, example_registry)"
    and "emp_updated_at example_employee = 100"
    by code_simp+
  with example_registry_reachable show ?thesis by simp
qed

theorem update_refreshes_on_change_witness:
  "find (\<lambda>e. emp_id e = 1) (employees example_registry) = Some example_employee \<and>
   update_employee 200 example_registry 1
     \<lparr>upd_full_name = Some ''Rajesh K'', upd_email = None, upd_department = None\<rparr>
     = (Inr (example_employee\<lparr>emp_full_name := ''Rajesh K'', emp_updated_at := 200\<rparr>),
        example_registry\<lparr>employees :=
          [example_employee\<lparr>emp_full_name := ''Rajesh K'', emp_updated_at := 200\<rparr>]\<rparr>) \<and>
   ''Rajesh K'' \<noteq> emp_full_name example_employee \<and>
   emp_updated_at (example_employee\<lparr>emp_full_name := ''Rajesh K'', emp_updated_at := 200\<rparr>) = 200"
proof -
  have f: "find (\<lambda>e. emp_id e = 1) (employees example_registry) = Some example_employee"
    and u: "update_employee 200 example_registry 1
     \<lparr>upd_full_name = Some ''Rajesh K'', upd_email = None, upd_department = None\<rparr>
     = (Inr (example_employee\<lparr>emp_full_name := ''Rajesh K'', emp_updated_at := 200\<rparr>),
        example_registry\<lparr>employees :=
          [example_employee\<lparr>emp_full_name := ''Rajesh K'', emp_updated_at := 200\<rparr>]\<rparr>)"
    and n: "''Rajesh K'' \<noteq> emp_full_name example_employee"
    by code_simp+
  show ?thesis
    using update_refreshes_on_change [OF f u] f u n by simp
qed

section \<open>Invariants of the reachable states\<close>

lemma map_emp_id_update_row:
  "map emp_id (map (\<lambda>e. if emp_id e = i then update_row now ch e else e) es) = map emp_id es"
  by (induction es) simp_all

lemma map_emp_id_filter:
  "map emp_id (filter (\<lambda>e. emp_id e \<noteq> i) es) = filter (\<lambda>x. x \<noteq> i) (map emp_id es)"
  by (induction es) simp_all

lemma reachable_ids:
  "reachable c d \<Longrightarrow>
     sorted_wrt (<) (map emp_id (employees d)) \<and>
     (\<forall>e\<in>set (employees d). emp_id e \<le> employees_id_seq d)"
proof (induction rule: reachable.induct)
  case (start c)
  show ?case by (simp add: init_db_def)
next
  case (tick c d c')
  then show ?case by simp
next
  case (create c d raw data)
  show ?case
  proof (cases rule: create_employee_cases [of "clock_utcnow c" d data])
    case rejected
    with create.IH show ?thesis by simp
  next
    case inserted
    with create.IH show ?thesis
      by (fastforce simp: sorted_wrt_append new_employee_def)
  qed
next
  case (update c d raw data i)
  show ?case
  proof (cases rule: update_employee_cases [of "clock_utcnow c" d i data])
    case same
    with update.IH show ?thesis by simp
  next
    case (written cur)
    have "map emp_id (employees (snd (update_employee (clock_utcnow c) d i data)))
            = map emp_id (employees d)"
      by (simp add: written(4) map_emp_id_update_row)
    moreover have "\<forall>e\<in>set (employees (snd (update_employee (clock_utcnow c) d i data))).
            emp_id e \<le> employees_id_seq (snd (update_employee (clock_utcnow c) d i data))"
      using update.IH by (auto simp: written(4))
    ultimately show ?thesis using update.IH by simp
  qed
next
  case (delete c d i)
  from delete_employee_snd [of d i] show ?case
  proof
    assume "snd (delete_employee d i) = d"
    with delete.IH show ?thesis by simp
  next
    assume del: "snd (delete_employee d i) = delete_employee_row d i"
    have "map emp_id (employees (delete_employee_row d i))
            = filter (\<lambda>x. x \<noteq> i) (map emp_id (employees d))"
      by (simp add: delete_employee_row_def map_emp_id_filter)
    moreover have "employees_id_seq (delete_employee_row d i) = employees_id_seq d"
      by (simp add: delete_employee_row_def)
    moreover have "set (employees (delete_employee_row d i)) \<subseteq> set (employees d)"
      by (auto simp: delete_employee_row_def)
    ultimately show ?thesis using delete.IH del
      by (auto simp: sorted_wrt_filter)
  qed
next
  case (mark c d data)
  show ?case
  proof (cases rule: mark_attendance_cases [of "clock_today c" "clock_utcnow c" d data])
    case rejected
    with mark.IH show ?thesis by simp
  next
    case inserted
    with mark.IH show ?thesis by simp
  qed
qed


lemma reachable_ids_distinct: "reachable c d \<Longrightarrow> distinct (map emp_id (employees d))"
  using reachable_ids [of c d] strict_sorted_iff [of "map emp_id (employees d)"] by simp

lemma map_code_update_row:
  "map (emp_employee_id \<circ> (\<lambda>e. if emp_id e = i then update_row now ch e else e)) es
     = map emp_employee_id es"
  by (induction es) (simp_all add: update_row_def)

lemma map_created_update_row:
  "map (emp_created_at \<circ> (\<lambda>e. if emp_id e = i then update_row now ch e else e)) es
     = map emp_created_at es"
  by (induction es) (simp_all add: update_row_def)

lemma reachable_codes:
  "reachable c d \<Longrightarrow> distinct (map emp_employee_id (employees d))"
proof (induction rule: reachable.induct)
  case (start c)
  show ?case by (simp add: init_db_def)
next
  case (tick c d c')
  then show ?case by simp
next
  case (create c d raw data)
  show ?case
  proof (cases rule: create_employee_cases [of "clock_utcnow c" d data])
    case rejected
    with create.IH show ?thesis by simp
  next
    case inserted
    from inserted(1) have "employee_id data \<notin> emp_employee_id ` set (employees d)"
      by (auto simp: create_precheck_None list_ex_iff)
    with inserted(2) create.IH show ?thesis
      by (simp add: new_employee_def)
  qed
next
  case (update c d raw data i)
  show ?case
  proof (cases rule: update_employee_cases [of "clock_utcnow c" d i data])
    case same
    with update.IH show ?thesis by simp
  next
    case (written cur)
    with update.IH show ?thesis by (simp add: map_code_update_row)
  qed
next
  case (delete c d i)
  from delete_employee_snd [of d i] delete.IH show ?case
    by (auto simp: delete_employee_row_def distinct_map_filter)
next
  case (mark c d data)
  show ?case
    by (cases rule: mark_attendance_cases [of "clock_today c" "clock_utcnow c" d data])
       (use mark.IH in simp_all)
qed

lemma reachable_created:
  "reachable c d \<Longrightarrow>
     sorted (map emp_created_at (employees d)) \<and>
     (\<forall>e\<in>set (employees d). emp_created_at e \<le> clock_utcnow c)"
proof (induction rule: reachable.induct)
  case (start c)
  show ?case by (simp add: init_db_def)
next
  case (tick c d c')
  then show ?case by fastforce
next
  case (create c d raw data)
  show ?case
  proof (cases rule: create_employee_cases [of "clock_utcnow c" d data])
    case rejected
    with create.IH show ?thesis by simp
  next
    case inserted
    with create.IH show ?thesis
      by (auto simp: sorted_append new_employee_def)
  qed
next
  case (update c d raw data i)
  show ?case
  proof (cases rule: update_employee_cases [of "clock_utcnow c" d i data])
    case same
    with update.IH show ?thesis by simp
  next
    case (written cur)
    have "\<forall>e\<in>set (employees (snd (update_employee (clock_utcnow c) d i data))).
            emp_created_at e \<le> clock_utcnow c"
      using update.IH by (auto simp: written(4) update_row_def)
    with written update.IH show ?thesis by (simp add: map_created_update_row)
  qed
next
  case (delete c d i)
  from delete_employee_snd [of d i] delete.IH show ?case
    by (auto simp: delete_employee_row_def sorted_filter)
next
  case (mark c d data)
  show ?case
    by (cases rule: mark_attendance_cases [of "clock_today c" "clock_utcnow c" d data])
       (use mark.IH in simp_all)
qed

lemma EmployeeUpdate_validate_email_lower:
  assumes "EmployeeUpdate_validate raw = Inr data" and "upd_email data = Some m"
  shows "lower m = m \<and> m \<noteq> []"
proof -
  from assms have "update_email (upd_email raw) = Some (Some m)"
    by (auto simp: EmployeeUpdate_validate_def split: option.splits)
  then show ?thesis
    by (auto simp: update_email_def update_validate_email_def Let_def lower_idem
          split: option.splits if_splits)
qed

lemma net_changes_email:
  "upd_email (net_changes cur data) = Some m \<Longrightarrow> upd_email data = Some m"
  by (auto simp: net_changes_def changed_def split: option.splits if_splits)

lemma emp_email_update_row:
  "emp_email (update_row now ch e) = (case upd_email ch of Some v \<Rightarrow> v | None \<Rightarrow> emp_email e)"
  by (simp add: update_row_def)

lemma update_emails_distinct:
  assumes ids: "distinct (map emp_id es)" and mails: "distinct (map emp_email es)"
    and cur: "find (\<lambda>e. emp_id e = i) es = Some cur"
    and free: "\<not> list_ex (\<lambda>e. emp_id e \<noteq> i \<and> emp_email e = emp_email (update_row now ch cur)) es"
  shows "distinct (map (emp_email \<circ> (\<lambda>e. if emp_id e = i then update_row now ch e else e)) es)"
proof -
  let ?g = "emp_email \<circ> (\<lambda>e. if emp_id e = i then update_row now ch e else e)"
  from ids have des: "distinct es" and inj_id: "inj_on emp_id (set es)"
    by (simp_all add: distinct_map)
  from mails have inj_mail: "inj_on emp_email (set es)"
    by (simp add: distinct_map)
  from cur have curi: "emp_id cur = i" "cur \<in> set es"
    by (simp_all add: find_Some_iff) (metis nth_mem)+
  have only: "x = cur" if "x \<in> set es" "emp_id x = i" for x
    using that curi inj_id by (auto dest: inj_onD)
  have other: "emp_email y \<noteq> emp_email (update_row now ch cur)"
    if "y \<in> set es" "emp_id y \<noteq> i" for y
    using that free by (auto simp: list_ex_iff)
  have "inj_on ?g (set es)"
  proof (rule inj_onI)
    fix x y
    assume x: "x \<in> set es" and y: "y \<in> set es" and eq: "?g x = ?g y"
    show "x = y"
    proof (cases "emp_id x = i")
      case xi: True
      show ?thesis
      proof (cases "emp_id y = i")
        case True
        from only [OF x xi] only [OF y True] show ?thesis by simp
      next
        case False
        with xi eq only [OF x xi] other [OF y False] show ?thesis by simp
      qed
    next
      case xi: False
      show ?thesis
      proof (cases "emp_id y = i")
        case True
        with xi eq only [OF y True] other [OF x xi] show ?thesis by simp
      next
        case False
        with xi eq have "emp_email x = emp_email y" by simp
        with x y inj_mail show ?thesis by (auto dest: inj_onD)
      qed
    qed
  qed
  with des show ?thesis by (simp add: distinct_map)
qed

lemma reachable_emails:
  "reachable c d \<Longrightarrow>
     distinct (map emp_email (employees d)) \<and>
     (\<forall>e\<in>set (employees d). lower (emp_email e) = emp_email e)"
proof (induction rule: reachable.induct)
  case (start c)
  show ?case by (simp add: init_db_def)
next
  case (tick c d c')
  then show ?case by simp
next
  case (create c d raw data)
  show ?case
  proof (cases rule: create_employee_cases [of "clock_utcnow c" d data])
    case rejected
    with create.IH show ?thesis by simp
  next
    case inserted
    from inserted(1) have "lower (email data) \<notin> emp_email ` set (employees d)"
      by (auto simp: create_precheck_None list_ex_iff)
    with inserted(2) create.IH show ?thesis
      by (simp add: new_employee_def lower_idem)
  qed
next
  case (update c d raw data i)
  show ?case
  proof (cases rule: update_employee_cases [of "clock_utcnow c" d i data])
    case same
    with update.IH show ?thesis by simp
  next
    case (written cur)
    let ?ch = "net_changes cur data"
    let ?es = "map (\<lambda>e. if emp_id e = i then update_row (clock_utcnow c) ?ch e else e) (employees d)"
    have emp: "employees (snd (update_employee (clock_utcnow c) d i data)) = ?es"
      by (simp add: written(4))
    have "distinct (map emp_email ?es)"
      using update_emails_distinct [OF reachable_ids_distinct [OF update.hyps(1)]
          update.IH [THEN conjunct1] written(1) written(3)]
      by simp
    moreover have "\<forall>e\<in>set ?es. lower (emp_email e) = emp_email e"
    proof
      fix e assume "e \<in> set ?es"
      then obtain e0 where e0: "e0 \<in> set (employees d)"
        and e: "e = (if emp_id e0 = i then update_row (clock_utcnow c) ?ch e0 else e0)"
        by auto
      show "lower (emp_email e) = emp_email e"
      proof (cases "emp_id e0 = i \<and> upd_email ?ch \<noteq> None")
        case True
        then obtain m where m: "upd_email ?ch = Some m" by auto
        from EmployeeUpdate_validate_email_lower [OF update.hyps(2) net_changes_email [OF m]]
        have "lower m = m" by simp
        with True m e show ?thesis by (simp add: emp_email_update_row)
      next
        case False
        with e have "emp_email e = emp_email e0"
          by (auto simp: emp_email_update_row)
        with e0 update.IH show ?thesis by simp
      qed
    qed
    ultimately show ?thesis using emp by simp
  qed
next
  case (delete c d i)
  from delete_employee_snd [of d i] delete.IH show ?case
    by (auto simp: delete_employee_row_def distinct_map_filter)
next
  case (mark c d data)
  show ?case
    by (cases rule: mark_attendance_cases [of "clock_today c" "clock_utcnow c" d data])
       (use mark.IH in simp_all)
qed

lemma reachable_attendance:
  "reachable c d \<Longrightarrow>
     distinct (map att_key (attendance d)) \<and>
     (\<forall>a\<in>set (attendance d). att_employee_id a \<in> emp_id ` set (employees d)) \<and>
     (\<forall>a\<in>set (attendance d). att_date a \<le> clock_today c)"
proof (induction rule: reachable.induct)
  case (start c)
  show ?case by (simp add: init_db_def)
next
  case (tick c d c')
  then show ?case by fastforce
next
  case (create c d raw data)
  show ?case
  proof (cases rule: create_employee_cases [of "clock_utcnow c" d data])
    case rejected
    with create.IH show ?thesis by simp
  next
    case inserted
    with create.IH show ?thesis by auto
  qed
next
  case (update c d raw data i)
  show ?case
  proof (cases rule: update_employee_cases [of "clock_utcnow c" d i data])
    case same
    with update.IH show ?thesis by simp
  next
    case (written cur)
    let ?d' = "snd (update_employee (clock_utcnow c) d i data)"
    have "attendance ?d' = attendance d"
      by (simp add: written(4))
    moreover have "emp_id ` set (employees ?d') = emp_id ` set (employees d)"
    proof -
      have "map emp_id (employees ?d') = map emp_id (employees d)"
        by (simp add: written(4) map_emp_id_update_row)
      then have "set (map emp_id (employees ?d')) = set (map emp_id (employees d))"
        by (rule arg_cong)
      then show ?thesis by (simp only: set_map)
    qed
    ultimately show ?thesis using update.IH by simp
  qed
next
  case (delete c d i)
  from delete_employee_snd [of d i] show ?case
  proof
    assume "snd (delete_employee d i) = d"
    with delete.IH show ?thesis by simp
  next
    assume del: "snd (delete_employee d i) = delete_employee_row d i"
    have "distinct (map att_key (attendance (delete_employee_row d i)))"
      using delete.IH by (simp add: delete_employee_row_def distinct_map_filter)
    moreover have "\<forall>a\<in>set (attendance (delete_employee_row d i)).
        att_employee_id a \<in> emp_id ` set (employees (delete_employee_row d i))"
      using delete.IH by (auto simp: delete_employee_row_def)
    moreover have "\<forall>a\<in>set (attendance (delete_employee_row d i)). att_date a \<le> clock_today c"
      using delete.IH by (simp add: delete_employee_row_def)
    ultimately show ?thesis using del by simp
  qed
next
  case (mark c d data)
  show ?case
  proof (cases rule: mark_attendance_cases [of "clock_today c" "clock_utcnow c" d data])
    case rejected
    with mark.IH show ?thesis by simp
  next
    case inserted
    from inserted(1) have ok: "attendance_date data \<le> clock_today c"
      "ac_employee_id data \<in> emp_id ` set (employees d)"
      "(ac_employee_id data, attendance_date data) \<notin> att_key ` set (attendance d)"
      by (force simp: mark_precheck_None list_ex_iff att_key_def)+
    with inserted(2) mark.IH show ?thesis
      by (simp add: new_attendance_def att_key_def)
  qed
qed

section \<open>One attendance record per employee and day\<close>

lemma at_most_one:
  "distinct (map f xs) \<Longrightarrow> length (filter (\<lambda>x. f x = k) xs) \<le> 1"
proof (induction xs)
  case Nil
  show ?case by simp
next
  case (Cons x xs)
  show ?case
  proof (cases "f x = k")
    case True
    from Cons.prems have "f x \<notin> f ` set xs" by simp
    then have "\<forall>y\<in>set xs. f y \<noteq> f x" by (metis imageI)
    with True have "filter (\<lambda>y. f y = k) xs = []"
      by (simp add: filter_empty_conv)
    with True show ?thesis by simp
  next
    case False
    with Cons show ?thesis by simp
  qed
qed

lemma reachable_at_most_one:
  assumes "reachable c d"
  shows "length (filter (\<lambda>a. att_employee_id a = E \<and> att_date a = D) (attendance d)) \<le> 1"
proof -
  from reachable_attendance [OF assms] have "distinct (map att_key (attendance d))" by simp
  from at_most_one [OF this, of "(E, D)"] show ?thesis
    by (simp add: att_key_def)
qed

lemma create_employee_attendance:
  "attendance (snd (create_employee now d data)) = attendance d"
  by (cases rule: create_employee_cases [of now d data]) simp_all

lemma update_employee_attendance:
  "attendance (snd (update_employee now d i data)) = attendance d"
  by (cases rule: update_employee_cases [of now d i data]) simp_all

text \<open>
  C1. In every reachable state there is at most one attendance row for an employee
  and a date. \<open>mark_attendance\<close> for a pair that has a row fails with
  \<open>DuplicateAttendanceException\<close> and returns the store as it was (in a reachable state
  the row's employee exists and its date is not in the future, so no earlier check
  answers first). After each of the four writing operations there is still at most
  one row for every pair.
\<close>

theorem attendance_unique:
  assumes "reachable c d"
  shows "length (filter (\<lambda>a. att_employee_id a = E \<and> att_date a = D) (attendance d)) \<le> 1 \<and>
    (list_ex (\<lambda>a. att_employee_id a = ac_employee_id data \<and> att_date a = attendance_date data)
       (attendance d) \<longrightarrow>
       mark_attendance (clock_today c) (clock_utcnow c) d data =
         (Inl (DuplicateAttendanceException (ac_employee_id data) (attendance_date data)), d)) \<and>
    length (filter (\<lambda>a. att_employee_id a = E \<and> att_date a = D)
      (attendance (snd (mark_attendance (clock_today c) (clock_utcnow c) d data)))) \<le> 1 \<and>
    length (filter (\<lambda>a. att_employee_id a = E \<and> att_date a = D)
      (attendance (snd (delete_employee d i)))) \<le> 1 \<and>
    length (filter (\<lambda>a. att_employee_id a = E \<and> att_date a = D)
      (attendance (snd (create_employee (clock_utcnow c) d ec)))) \<le> 1 \<and>
    length (filter (\<lambda>a. att_employee_id a = E \<and> att_date a = D)
      (attendance (snd (update_employee (clock_utcnow c) d i eu)))) \<le> 1"
proof -
  note one = reachable_at_most_one
  have dup: "mark_attendance (clock_today c) (clock_utcnow c) d data =
         (Inl (DuplicateAttendanceException (ac_employee_id data) (attendance_date data)), d)"
    if ex: "list_ex (\<lambda>a. att_employee_id a = ac_employee_id data \<and>
               att_date a = attendance_date data) (attendance d)"
  proof -
    from ex obtain a where a: "a \<in> set (attendance d)"
      "att_employee_id a = ac_employee_id data" "att_date a = attendance_date data"
      by (auto simp: list_ex_iff)
    with reachable_attendance [OF assms] have date: "attendance_date data \<le> clock_today c"
      and emp: "ac_employee_id data \<in> emp_id ` set (employees d)"
      by metis+
    from emp have "find (\<lambda>e. emp_id e = ac_employee_id data) (employees d) \<noteq> None"
      by (auto simp: find_None_iff)
    then obtain employee where e: "find (\<lambda>e. emp_id e = ac_employee_id data) (employees d)
        = Some employee" by blast
    from ex have "find (\<lambda>a. att_employee_id a = ac_employee_id data \<and>
               att_date a = attendance_date data) (attendance d) \<noteq> None"
      by (simp add: find_None_list_ex)
    then obtain existing where x: "find (\<lambda>a. att_employee_id a = ac_employee_id data \<and>
               att_date a = attendance_date data) (attendance d) = Some existing" by blast
    from date e x show ?thesis
      by (simp add: mark_attendance_def mark_precheck_def check_duplicate_attendance_def)
  qed
  from one [OF assms] dup one [OF reachable.mark [OF assms]] one [OF reachable.delete [OF assms]]
    one [OF assms, of E D]
  show ?thesis
    by (simp add: create_employee_attendance update_employee_attendance)
qed

lemma example_marked_marked:
  "mark_attendance 19020 200 example_registry
     \<lparr>ac_employee_id = 1, attendance_date = 19001, status = PRESENT\<rparr>
   = (Inr \<lparr>att_id = 1, att_employee_id = 1, att_date = 19001,
            att_status = ''Present'', att_created_at = 200\<rparr>, example_marked)"
  by code_simp

lemma example_marked_reachable:
  "reachable \<lparr>clock_utcnow = 200, clock_today = 19020\<rparr> example_marked"
  using reachable.mark [OF example_registry_reachable,
      of "\<lparr>ac_employee_id = 1, attendance_date = 19001, status = PRESENT\<rparr>"]
  by (simp add: example_marked_marked)

theorem attendance_unique_witness:
  "reachable \<lparr>clock_utcnow = 200, clock_today = 19020\<rparr> example_marked \<and>
   list_ex (\<lambda>a. att_employee_id a = 1 \<and> att_date a = 19001) (attendance example_marked) \<and>
   mark_attendance 19020 200 example_marked
     \<lparr>ac_employee_id = 1, attendance_date = 19001, status = ABSENT\<rparr>
     = (Inl (DuplicateAttendanceException 1 19001), example_marked) \<and>
   length (filter (\<lambda>a. att_employee_id a = 1 \<and> att_date a = 19001)
     (attendance example_marked)) \<le> 1"
proof -
  have ex: "list_ex (\<lambda>a. att_employee_id a = 1 \<and> att_date a = 19001) (attendance example_marked)"
    by code_simp
  show ?thesis
    using attendance_unique [OF example_marked_reachable, of 1 19001
        "\<lparr>ac_employee_id = 1, attendance_date = 19001, status = ABSENT\<rparr>"]
      example_marked_reachable ex
    by simp
qed

section \<open>Unique codes and e-mails\<close>

lemma reachable_lower_emails:
  assumes "reachable c d"
  shows "map (lower \<circ> emp_email) (employees d) = map emp_email (employees d)"
  using reachable_emails [OF assms] by simp

lemma create_employee_duplicate:
  assumes "list_ex (\<lambda>e. emp_employee_id e = employee_id data \<or> emp_email e = lower (email data))
             (employees d)"
  shows "\<exists>f v. create_employee now d data = (Inl (DuplicateEmployeeException f v None), d)"
proof -
  from assms have "create_precheck d data \<noteq> None"
    by (simp add: create_precheck_None)
  then obtain err where e: "create_precheck d data = Some err" by blast
  from create_precheck_kind [OF e] e show ?thesis
    by (auto simp: create_employee_def)
qed

text \<open>
  C2. In every reachable state no two employees have the same code and no two have
  the same e-mail up to letter case. \<open>create_employee\<close> fails with
  \<open>DuplicateEmployeeException\<close>, the store unchanged, when an employee has the supplied
  code or, up to letter case, the supplied e-mail; otherwise it appends the new
  employee, with the next key and the lower-cased e-mail.
\<close>

theorem employee_identity_unique:
  assumes "reachable c d"
  shows "distinct (map emp_employee_id (employees d)) \<and>
    distinct (map (lower \<circ> emp_email) (employees d)) \<and>
    (list_ex (\<lambda>e. emp_employee_id e = employee_id data \<or>
                lower (emp_email e) = lower (email data)) (employees d) \<longrightarrow>
       (\<exists>f v. create_employee now d data = (Inl (DuplicateEmployeeException f v None), d))) \<and>
    (\<not> list_ex (\<lambda>e. emp_employee_id e = employee_id data \<or>
                lower (emp_email e) = lower (email data)) (employees d) \<longrightarrow>
       create_employee now d data =
         (Inr (new_employee now d data),
          d\<lparr>employees_id_seq := employees_id_seq d + 1,
            employees := employees d @ [new_employee now d data]\<rparr>))"
proof -
  from reachable_emails [OF assms]
  have low: "\<forall>e\<in>set (employees d). lower (emp_email e) = emp_email e"
    and dm: "distinct (map emp_email (employees d))" by simp_all
  have same: "list_ex (\<lambda>e. emp_employee_id e = employee_id data \<or>
                lower (emp_email e) = lower (email data)) (employees d)
     = list_ex (\<lambda>e. emp_employee_id e = employee_id data \<or>
                emp_email e = lower (email data)) (employees d)"
    using low by (auto simp: list_ex_iff)
  have "distinct (map (lower \<circ> emp_email) (employees d))"
    unfolding reachable_lower_emails [OF assms] by (rule dm)
  moreover have "\<not> list_ex (\<lambda>e. emp_employee_id e = employee_id data \<or>
                emp_email e = lower (email data)) (employees d) \<longrightarrow>
       create_employee now d data =
         (Inr (new_employee now d data),
          d\<lparr>employees_id_seq := employees_id_seq d + 1,
            employees := employees d @ [new_employee now d data]\<rparr>)"
    using create_employee_ok [of d data now] by (simp add: create_precheck_None)
  ultimately show ?thesis
    using reachable_codes [OF assms] create_employee_duplicate [of data d now] same
    by simp
qed


theorem employee_identity_unique_witness:
  "reachable \<lparr>clock_utcnow = 200, clock_today = 19020\<rparr> example_registry \<and>
   list_ex (\<lambda>e. emp_employee_id e = employee_id rajesh \<or>
                lower (emp_email e) = lower (email rajesh)) (employees example_registry) \<and>
   (\<exists>f v. create_employee 200 example_registry rajesh
      = (Inl (DuplicateEmployeeException f v None), example_registry)) \<and>
   \<not> list_ex (\<lambda>e. emp_employee_id e = employee_id lower_code \<or>
                lower (emp_email e) = lower (email lower_code)) (employees example_registry) \<and>
   create_employee 200 example_registry lower_code =
     (Inr (new_employee 200 example_registry lower_code),
      example_registry\<lparr>employees_id_seq := 2,
         employees := [example_employee, new_employee 200 example_registry lower_code]\<rparr>) \<and>
   distinct (map emp_employee_id (employees example_registry))"
proof -
  have y: "list_ex (\<lambda>e. emp_employee_id e = employee_id rajesh \<or>
                lower (emp_email e) = lower (email rajesh)) (employees example_registry)"
    and n: "\<not> list_ex (\<lambda>e. emp_employee_id e = employee_id lower_code \<or>
                lower (emp_email e) = lower (email lower_code)) (employees example_registry)"
    and s: "employees_id_seq example_registry + 1 = 2"
       "employees example_registry = [example_employee]"
    by code_simp+
  show ?thesis
    using employee_identity_unique [OF example_registry_reachable, of rajesh 200]
      employee_identity_unique [OF example_registry_reachable, of lower_code 200]
      example_registry_reachable y n s
    by auto
qed


section \<open>Listing the employees\<close>

lemma lower_code_valid: "EmployeeCreate_validate lower_code = Inr lower_code"
  by code_simp

lemma example_two_reachable:
  "reachable \<lparr>clock_utcnow = 200, clock_today = 19020\<rparr> example_two"
  using reachable.create [OF example_registry_reachable lower_code_valid]
  by (simp add: example_two_def)


lemma sorted_wrt_conj:
  "sorted_wrt P xs \<Longrightarrow> sorted_wrt Q xs \<Longrightarrow> sorted_wrt (\<lambda>x y. P x y \<and> Q x y) xs"
  by (induction xs) auto

lemma reachable_newer:
  assumes "reachable c d"
  shows "sorted_wrt newer (rev (employees d))"
proof -
  from reachable_ids [OF assms]
  have "sorted_wrt (\<lambda>x y. emp_id x < emp_id y) (employees d)"
    by (simp add: sorted_wrt_map)
  moreover from reachable_created [OF assms]
  have "sorted_wrt (\<lambda>x y. emp_created_at x \<le> emp_created_at y) (employees d)"
    by (simp add: sorted_map)
  ultimately have "sorted_wrt (\<lambda>x y. emp_id x < emp_id y \<and> emp_created_at x \<le> emp_created_at y)
      (employees d)"
    by (rule sorted_wrt_conj)
  then show ?thesis
    by (simp add: sorted_wrt_rev newer_def [abs_def])
qed

lemma reachable_page_newest_first:
  assumes "reachable c d"
  shows "take limit (drop skip (rev (sort_key emp_id (employees d))))
           = take limit (drop skip (rev (employees d))) \<and>
         sorted_wrt newer (take limit (drop skip (rev (employees d))))"
proof -
  from reachable_ids [OF assms] have "sorted (map emp_id (employees d))"
    using strict_sorted_iff [of "map emp_id (employees d)"] by simp
  then have "sort_key emp_id (employees d) = employees d"
    by (rule sort_key_id_if_sorted)
  moreover have "sorted_wrt newer (take limit (drop skip (rev (employees d))))"
    using reachable_newer [OF assms] by (simp add: sorted_wrt_take sorted_wrt_drop)
  ultimately show ?thesis by simp
qed

lemma serialize_ids:
  "serialize emps = Inr data \<Longrightarrow> map res_id data = map emp_id emps"
proof (induction emps arbitrary: data)
  case Nil
  then show ?case by simp
next
  case (Cons emp emps)
  then show ?case
    by (auto simp: EmployeeResponse_validate_def split: sum.splits option.splits)
qed

text \<open>
  What the route does where every row of the page passes the response schema: in a
  reachable state it answers the page \<open>[skip, skip + limit)\<close> of the employees in
  reverse order of insertion, most recently created first, and the number of all
  employees.
\<close>

lemma list_page_of_valid_rows:
  assumes "reachable c d"
    and "serialize (take limit (drop skip (rev (employees d)))) = Inr data"
  shows "get_all_employees scan skip limit None d = Inr (data, get_employee_count d) \<and>
         map res_id data = map emp_id (take limit (drop skip (rev (employees d)))) \<and>
         sorted_wrt newer (take limit (drop skip (rev (employees d)))) \<and>
         length data \<le> limit"
proof -
  note page = reachable_page_newest_first [OF assms(1), of limit skip]
  have ids: "map res_id data = map emp_id (take limit (drop skip (rev (employees d))))"
    using assms(2) by (rule serialize_ids)
  then have "length data = length (take limit (drop skip (rev (employees d))))"
    by (metis length_map)
  then have "length data \<le> limit" by simp
  moreover have "get_all_employees scan skip limit None d = Inr (data, get_employee_count d)"
    using page assms(2) by (simp add: get_all_employees_def get_employee_count_def)
  ultimately show ?thesis using ids page by simp
qed

lemma list_example_two:
  "get_all_employees scan 0 1 None example_two
     = Inr ([to_response (new_employee 200 example_registry lower_code)], 2) \<and>
   get_all_employees scan 1 500 None example_two = Inr ([to_response example_employee], 2)"
  by code_simp




section \<open>Case of codes and e-mails\<close>

lemma reachable_email_lookup:
  assumes "reachable c d"
  shows "get_employee_by_email d m = find (\<lambda>e. lower (emp_email e) = lower m) (employees d)"
proof -
  from reachable_emails [OF assms]
  have "\<forall>e\<in>set (employees d). lower (emp_email e) = emp_email e" by simp
  then have "find (\<lambda>e. emp_email e = lower m) (employees d)
      = find (\<lambda>e. lower (emp_email e) = lower m) (employees d)"
    by (intro find_cong) simp_all
  then show ?thesis by (simp add: get_employee_by_email_def)
qed

text \<open>
  C10. The codes \<open>EMP001\<close> and \<open>emp001\<close> differ in case only, both requests pass the
  create schema, and after the two creates both employees are in the registry: the
  code is compared as given. The e-mail is not: a request whose e-mail differs from a
  stored one in case only is refused; in every reachable state the stored e-mails are
  lower-case and pairwise different up to case, \<open>get_employee_by_email\<close> finds an
  employee up to case, and \<open>create_employee\<close> refuses an e-mail that an employee has up
  to case.
\<close>

theorem code_case_sensitive_email_not:
  "EmployeeCreate_validate rajesh = Inr rajesh \<and>
   EmployeeCreate_validate lower_code = Inr lower_code \<and>
   employee_id rajesh \<noteq> employee_id lower_code \<and>
   lower (employee_id rajesh) = lower (employee_id lower_code) \<and>
   reachable \<lparr>clock_utcnow = 200, clock_today = 19020\<rparr> example_two \<and>
   map emp_employee_id (employees example_two) = [''EMP001'', ''emp001''] \<and>
   (\<exists>data. EmployeeCreate_validate upper_mail = Inr data \<and>
      create_employee 200 example_registry data =
        (Inl (DuplicateEmployeeException ''email'' (Some ''rajesh.kumar@company.com'') None),
         example_registry)) \<and>
   (reachable c d \<longrightarrow>
      distinct (map (lower \<circ> emp_email) (employees d)) \<and>
      (\<forall>e\<in>set (employees d). emp_email e = lower (emp_email e)) \<and>
      get_employee_by_email d m = find (\<lambda>e. lower (emp_email e) = lower m) (employees d)) \<and>
   (reachable c d \<and> list_ex (\<lambda>e. lower (emp_email e) = lower (email data')) (employees d) \<longrightarrow>
      (\<exists>f v. create_employee now d data' = (Inl (DuplicateEmployeeException f v None), d)))"
proof -
  have ex: "EmployeeCreate_validate rajesh = Inr rajesh"
    "EmployeeCreate_validate lower_code = Inr lower_code"
    "employee_id rajesh \<noteq> employee_id lower_code"
    "lower (employee_id rajesh) = lower (employee_id lower_code)"
    "map emp_employee_id (employees example_two) = [''EMP001'', ''emp001'']"
    by code_simp+
  have up: "EmployeeCreate_validate upper_mail = Inr (upper_mail\<lparr>email := ''rajesh.kumar@company.com''\<rparr>)"
    "create_employee 200 example_registry (upper_mail\<lparr>email := ''rajesh.kumar@company.com''\<rparr>) =
        (Inl (DuplicateEmployeeException ''email'' (Some ''rajesh.kumar@company.com'') None),
         example_registry)"
    by code_simp+
  then have upx: "\<exists>data. EmployeeCreate_validate upper_mail = Inr data \<and>
      create_employee 200 example_registry data =
        (Inl (DuplicateEmployeeException ''email'' (Some ''rajesh.kumar@company.com'') None),
         example_registry)" by blast
  have inv: "distinct (map (lower \<circ> emp_email) (employees d)) \<and>
      (\<forall>e\<in>set (employees d). emp_email e = lower (emp_email e)) \<and>
      get_employee_by_email d m = find (\<lambda>e. lower (emp_email e) = lower m) (employees d)"
    if r: "reachable c d"
  proof -
    from reachable_emails [OF r] have dm: "distinct (map emp_email (employees d))"
      and low: "\<forall>e\<in>set (employees d). emp_email e = lower (emp_email e)" by simp_all
    have "distinct (map (lower \<circ> emp_email) (employees d))"
      unfolding reachable_lower_emails [OF r] by (rule dm)
    with low reachable_email_lookup [OF r] show ?thesis by blast
  qed
  have dup: "\<exists>f v. create_employee now d data' = (Inl (DuplicateEmployeeException f v None), d)"
    if r: "reachable c d"
      and l: "list_ex (\<lambda>e. lower (emp_email e) = lower (email data')) (employees d)"
  proof -
    from reachable_emails [OF r] l
    have "list_ex (\<lambda>e. emp_employee_id e = employee_id data' \<or> emp_email e = lower (email data'))
             (employees d)"
      by (auto simp: list_ex_iff)
    then show ?thesis by (rule create_employee_duplicate)
  qed
  from ex example_two_reachable upx inv dup show ?thesis by blast
qed

theorem code_case_sensitive_email_not_witness:
  "reachable \<lparr>clock_utcnow = 200, clock_today = 19020\<rparr> example_registry \<and>
   list_ex (\<lambda>e. lower (emp_email e) = lower (email upper_mail)) (employees example_registry) \<and>
   distinct (map (lower \<circ> emp_email) (employees example_registry)) \<and>
   get_employee_by_email example_registry ''Rajesh.Kumar@Company.COM'' = Some example_employee \<and>
   (\<exists>f v. create_employee 200 example_registry upper_mail
      = (Inl (DuplicateEmployeeException f v None), example_registry))"
proof -
  have l: "list_ex (\<lambda>e. lower (emp_email e) = lower (email upper_mail)) (employees example_registry)"
    and g: "find (\<lambda>e. lower (emp_email e) = lower ''Rajesh.Kumar@Company.COM'')
              (employees example_registry) = Some example_employee"
    by code_simp+
  show ?thesis
    using code_case_sensitive_email_not [of "\<lparr>clock_utcnow = 200, clock_today = 19020\<rparr>"
        example_registry "''Rajesh.Kumar@Company.COM''" upper_mail 200]
      example_registry_reachable l g
    by simp
qed

end
